theory Spec2Isabelle
  imports Main "HOL-Library.Word"
begin

section \<open>Checked conditions (src/src/base/checks.h)\<close>

datatype error =
    Fatal       \<comment> \<open>a failed \<open>ARW_CHECK\<close>: \<open>arw::Check\<close> was called\<close>
  | Undefined   \<comment> \<open>the C++ has no defined behaviour (invalid or uninitialised memory is read)\<close>
  | NotRegistered \<comment> \<open>no \<open>ARW_DEFINE_STORAGE\<close> specialisation exists for the type\<close>

text \<open>
  Modelled from the spec: \<open>arw::Check\<close> is declared in \<open>checks.h\<close> and defined in
  \<open>checks.cc\<close>, which is not among the sources. The specification calls a failed check
  a fatal condition (detect the programmer error, then halt), and the tests expect the
  process to die. The model is the error value the halted operation ends with.
\<close>

definition Check :: error where
  "Check = Fatal"

text \<open>
  \<open>ARW_CHECK(condition)\<close> calls \<open>arw::Check\<close> when the condition is false. An operation
  on a state \<open>s\<close> that halts there ends with \<open>Inl (Check, s)\<close>: the error together with
  the state as it was when the process halted. Otherwise the rest of the operation runs.
\<close>

definition ARW_CHECK :: "bool \<Rightarrow> 's \<Rightarrow> (error \<times> 's) + 'r \<Rightarrow> (error \<times> 's) + 'r" where
  "ARW_CHECK condition s rest = (if \<not> condition then Inl (Check, s) else rest)"

section \<open>The shadow stack (src/src/local\_stack.h)\<close>

text \<open>
  \<open>LocalStack<Descriptor, Data>\<close> holds a \<open>std::vector\<close> of pairs; a \<open>ref\<close> is a
  \<open>size_t\<close>, here a natural number.
\<close>

type_synonym ('d, 'a) LocalStack = "('d \<times> 'a) list"

definition LocalStack :: "('d, 'a) LocalStack" where
  "LocalStack = []"

definition top_ref :: "('d, 'a) LocalStack \<Rightarrow> nat" where
  "top_ref vec = length vec"

definition empty :: "('d, 'a) LocalStack \<Rightarrow> bool" where
  "empty vec = (vec = [])"

definition clear :: "('d, 'a) LocalStack \<Rightarrow> ('d, 'a) LocalStack" where
  "clear vec = []"

text \<open>
  \<open>popTo\<close>: \<open>ARW_CHECK(_vec.size() >= r); _vec.resize(r);\<close>. After the check
  \<open>resize\<close> can only shrink the vector, which keeps its first \<open>r\<close> elements.
\<close>

definition popTo :: "nat \<Rightarrow> ('d, 'a) LocalStack \<Rightarrow> (error \<times> ('d, 'a) LocalStack) + ('d, 'a) LocalStack" where
  "popTo r vec = ARW_CHECK (length vec \<ge> r) vec (Inr (take r vec))"

definition push :: "'d \<times> 'a \<Rightarrow> ('d, 'a) LocalStack \<Rightarrow> ('d, 'a) LocalStack" where
  "push v vec = vec @ [v]"

text \<open>Every state of a stack is the result of pushing its entries, in order.\<close>

fun pushes :: "('d \<times> 'a) list \<Rightarrow> ('d, 'a) LocalStack \<Rightarrow> ('d, 'a) LocalStack" where
  "pushes [] vec = vec"
| "pushes (v # vs) vec = pushes vs (push v vec)"

section \<open>The persistent pool (src/unnamed/part\_001, the header persistent\_pool.h)\<close>

text \<open>
  \<open>std::map<Data, std::pair<Descriptor, size_t>>\<close>: the \<open>size_t\<close> is the reference
  count, a machine word whose \<open>++\<close> and \<open>--\<close> wrap around.
\<close>

type_synonym ('k, 'd, 'w) PersistentPool = "'k \<rightharpoonup> ('d \<times> 'w word)"

definition PersistentPool :: "('k, 'd, 'w::len) PersistentPool" where
  "PersistentPool = Map.empty"

definition pool_empty :: "('k, 'd, 'w::len) PersistentPool \<Rightarrow> bool" where
  "pool_empty m = (m = Map.empty)"

text \<open>
  \<open>add\<close>: \<open>_map.insert\<close> of \<open>(data, (desc, 1))\<close> does nothing when the key is present
  and then reports the existing entry, whose descriptor is checked and whose count is
  incremented.
\<close>

definition add :: "'k \<Rightarrow> 'd \<Rightarrow> ('k, 'd, 'w::len) PersistentPool
    \<Rightarrow> (error \<times> ('k, 'd, 'w) PersistentPool) + ('k, 'd, 'w) PersistentPool" where
  "add data desc m =
     (case m data of
        None \<Rightarrow> Inr (m(data \<mapsto> (desc, 1)))
      | Some (d, refcount) \<Rightarrow>
          ARW_CHECK (d = desc) m (Inr (m(data \<mapsto> (d, refcount + 1)))))"

text \<open>
  \<open>remove\<close>: \<open>find\<close>, the check that the key was found, then the decrement and the
  \<open>erase\<close> at zero.
\<close>

definition remove :: "'k \<Rightarrow> ('k, 'd, 'w::len) PersistentPool
    \<Rightarrow> (error \<times> ('k, 'd, 'w) PersistentPool) + ('k, 'd, 'w) PersistentPool" where
  "remove data m =
     ARW_CHECK (m data \<noteq> None) m
       (let (d, refcount) = the (m data);
            refcount' = refcount - 1
        in if 0 = refcount' then Inr (m(data := None))
           else Inr (m(data \<mapsto> (d, refcount'))))"

datatype ('k, 'd) pool_call = Add 'k 'd | Remove 'k

fun pool_step :: "('k, 'd) pool_call \<Rightarrow> ('k, 'd, 'w::len) PersistentPool
    \<Rightarrow> (error \<times> ('k, 'd, 'w) PersistentPool) + ('k, 'd, 'w) PersistentPool" where
  "pool_step (Add data desc) m = add data desc m"
| "pool_step (Remove data) m = remove data m"

text \<open>A sequence of calls; a halted call ends the sequence.\<close>

fun pool_calls :: "('k, 'd) pool_call list \<Rightarrow> ('k, 'd, 'w::len) PersistentPool
    \<Rightarrow> (error \<times> ('k, 'd, 'w) PersistentPool) + ('k, 'd, 'w) PersistentPool" where
  "pool_calls [] m = Inr m"
| "pool_calls (c # cs) m =
     (case pool_step c m of Inl e \<Rightarrow> Inl e | Inr m' \<Rightarrow> pool_calls cs m')"

section \<open>The reference wrapper (src/src/handle.h)\<close>

datatype HandleType = VALUE | REFERENCE | WEAK

text \<open>
  \<open>Handle<T, Type, Hooks>\<close> has one member, \<open>_data\<close>, of the storage type: \<open>T\<close> for a
  value handle, \<open>T*\<close> for a strong or weak reference. The storage type is the type
  parameter \<open>'d\<close>; the template argument \<open>Type\<close> is the field \<open>handleType\<close>, which no
  operation changes.
\<close>

record 'd Handle =
  handleType :: HandleType
  data :: 'd

text \<open>
  The hook set, four static functions that may have any effect on the rest of the
  program, the state \<open>'w\<close>. \<open>created\<close> and \<open>destroyed\<close> receive the (constant) handle.
  \<open>read\<close> receives a pointer to \<open>_data\<close>: it sees what the handle holds, may update it
  and may return anything, so it yields the pointer returned, the new content of
  \<open>_data\<close> and the new state. \<open>write\<close> (the field \<open>write'\<close>) receives the same pointer and the value to set,
  and yields the new content of \<open>_data\<close> and the new state.
\<close>

record ('d, 'w) Hooks =
  created :: "'d Handle \<Rightarrow> 'w \<Rightarrow> 'w"
  destroyed :: "'d Handle \<Rightarrow> 'w \<Rightarrow> 'w"
  read :: "'d \<Rightarrow> 'w \<Rightarrow> 'd \<times> 'd \<times> 'w"
  write' :: "'d \<Rightarrow> 'd \<Rightarrow> 'w \<Rightarrow> 'd \<times> 'w"

definition wasCreated :: "('d, 'w) Hooks \<Rightarrow> 'd Handle \<Rightarrow> 'w \<Rightarrow> 'w" where
  "wasCreated hooks this w = created hooks this w"

definition wasDestroyed :: "('d, 'w) Hooks \<Rightarrow> 'd Handle \<Rightarrow> 'w \<Rightarrow> 'w" where
  "wasDestroyed hooks this w = destroyed hooks this w"

text \<open>
  The five constructors. The default constructor leaves \<open>_data\<close> default-initialised;
  for a pointer or a scalar that is whatever the memory held, the argument
  \<open>indeterminate\<close>. Moving from a storage value gives the new handle that value.
\<close>

definition Handle_default :: "('d, 'w) Hooks \<Rightarrow> HandleType \<Rightarrow> 'd \<Rightarrow> 'w \<Rightarrow> 'd Handle \<times> 'w" where
  "Handle_default hooks Type indeterminate w =
     (let this = \<lparr>handleType = Type, data = indeterminate\<rparr>
      in (this, wasCreated hooks this w))"

definition Handle_copy :: "('d, 'w) Hooks \<Rightarrow> 'd Handle \<Rightarrow> 'w \<Rightarrow> 'd Handle \<times> 'w" where
  "Handle_copy hooks other w =
     (let this = \<lparr>handleType = handleType other, data = data other\<rparr>
      in (this, wasCreated hooks this w))"

definition Handle_move :: "('d, 'w) Hooks \<Rightarrow> 'd Handle \<Rightarrow> 'w \<Rightarrow> 'd Handle \<times> 'w" where
  "Handle_move hooks other w =
     (let this = \<lparr>handleType = handleType other, data = data other\<rparr>
      in (this, wasCreated hooks this w))"

definition Handle_value :: "('d, 'w) Hooks \<Rightarrow> HandleType \<Rightarrow> 'd \<Rightarrow> 'w \<Rightarrow> 'd Handle \<times> 'w" where
  "Handle_value hooks Type other w =
     (let this = \<lparr>handleType = Type, data = other\<rparr>
      in (this, wasCreated hooks this w))"

definition Handle_value_move :: "('d, 'w) Hooks \<Rightarrow> HandleType \<Rightarrow> 'd \<Rightarrow> 'w \<Rightarrow> 'd Handle \<times> 'w" where
  "Handle_value_move hooks Type other w =
     (let this = \<lparr>handleType = Type, data = other\<rparr>
      in (this, wasCreated hooks this w))"

definition Handle_destroy :: "('d, 'w) Hooks \<Rightarrow> 'd Handle \<Rightarrow> 'w \<Rightarrow> 'w" where
  "Handle_destroy hooks this w = wasDestroyed hooks this w"

text \<open>
  The private \<open>write\<close>: the overloads enabled for \<open>VALUE\<close> assign \<open>_data\<close>, the one
  enabled otherwise calls \<open>Hooks::write(&_data, val)\<close>.
\<close>

definition Handle_write :: "('d, 'w) Hooks \<Rightarrow> 'd \<Rightarrow> 'd Handle \<Rightarrow> 'w \<Rightarrow> 'd Handle \<times> 'w" where
  "Handle_write hooks val this w =
     (if handleType this = VALUE then (this\<lparr>data := val\<rparr>, w)
      else (let (d, w') = write' hooks (data this) val w in (this\<lparr>data := d\<rparr>, w')))"

text \<open>The four assignment operators; each returns \<open>*this\<close>.\<close>

definition assign_copy :: "('d, 'w) Hooks \<Rightarrow> 'd Handle \<Rightarrow> 'd Handle \<Rightarrow> 'w \<Rightarrow> 'd Handle \<times> 'w" where
  "assign_copy hooks other this w = Handle_write hooks (data other) this w"

definition assign_move :: "('d, 'w) Hooks \<Rightarrow> 'd Handle \<Rightarrow> 'd Handle \<Rightarrow> 'w \<Rightarrow> 'd Handle \<times> 'w" where
  "assign_move hooks other this w = Handle_write hooks (data other) this w"

definition assign_value :: "('d, 'w) Hooks \<Rightarrow> 'd \<Rightarrow> 'd Handle \<Rightarrow> 'w \<Rightarrow> 'd Handle \<times> 'w" where
  "assign_value hooks other this w = Handle_write hooks other this w"

definition assign_value_move :: "('d, 'w) Hooks \<Rightarrow> 'd \<Rightarrow> 'd Handle \<Rightarrow> 'w \<Rightarrow> 'd Handle \<times> 'w" where
  "assign_value_move hooks other this w = Handle_write hooks other this w"

text \<open>
  \<open>get\<close> returns a pointer: for a value handle the address of \<open>_data\<close>, written
  \<open>InPlace\<close> with the value found there; otherwise what \<open>Hooks::read(&_data)\<close> returns.
  The constant and the non-constant overloads do the same.
\<close>

datatype 'd pointer = InPlace 'd | Referent 'd

definition get :: "('d, 'w) Hooks \<Rightarrow> 'd Handle \<Rightarrow> 'w \<Rightarrow> 'd pointer \<times> 'd Handle \<times> 'w" where
  "get hooks this w =
     (if handleType this = VALUE then (InPlace (data this), this, w)
      else (let (r, d, w') = read hooks (data this) w in (Referent r, this\<lparr>data := d\<rparr>, w')))"

text \<open>
  \<open>operator->\<close> returns \<open>get()\<close> and \<open>operator*\<close> returns \<open>*get()\<close>, the object at that
  pointer.
\<close>

definition operator_arrow :: "('d, 'w) Hooks \<Rightarrow> 'd Handle \<Rightarrow> 'w \<Rightarrow> 'd pointer \<times> 'd Handle \<times> 'w" where
  "operator_arrow hooks this w = get hooks this w"

definition operator_star :: "('d, 'w) Hooks \<Rightarrow> 'd Handle \<Rightarrow> 'w \<Rightarrow> 'd pointer \<times> 'd Handle \<times> 'w" where
  "operator_star hooks this w = get hooks this w"

text \<open>
  \<open>operator bool\<close> is \<open>!!get()\<close>, with a \<open>static_assert\<close> that the handle is weak: for
  another discipline the program does not compile, the result \<open>None\<close>. The null pointer
  of the storage type is the argument \<open>null\<close>.
\<close>

definition operator_bool :: "'d \<Rightarrow> ('d, 'w) Hooks \<Rightarrow> 'd Handle \<Rightarrow> 'w \<Rightarrow> (bool \<times> 'd Handle \<times> 'w) option" where
  "operator_bool null hooks this w =
     (if WEAK = handleType this
      then (let (r, this', w') = get hooks this w in Some (r \<noteq> Referent null, this', w'))
      else None)"

text \<open>
  \<open>std::swap\<close> of two handles is \<open>std::swap(*lhs, *rhs)\<close>. For value handles the two
  objects are the handles' own data, which are exchanged. For references they are the
  two referents, outside the handles: the handles keep what the read hook left in them,
  and the pointers whose referents are exchanged are returned.
\<close>

definition swap :: "('d, 'w) Hooks \<Rightarrow> 'd Handle \<Rightarrow> 'd Handle \<Rightarrow> 'w
    \<Rightarrow> ('d Handle \<times> 'd Handle \<times> ('d \<times> 'd) option) \<times> 'w" where
  "swap hooks lhs rhs w =
     (let (l, lhs', w1) = operator_star hooks lhs w;
          (r, rhs', w2) = operator_star hooks rhs w1
      in case (l, r) of
           (InPlace x, InPlace y) \<Rightarrow> ((lhs'\<lparr>data := y\<rparr>, rhs'\<lparr>data := x\<rparr>, None), w2)
         | (Referent p, Referent q) \<Rightarrow> ((lhs', rhs', Some (p, q)), w2)
         | _ \<Rightarrow> ((lhs', rhs', None), w2))"

text \<open>
  Counting hook calls, as the hooks of the handle tests do: any hook set, wrapped so
  that each of its four functions also records that it was called.
\<close>

datatype call = CallCreated | CallDestroyed | CallRead | CallWrite

definition counting :: "('d, 'w) Hooks \<Rightarrow> ('d, 'w \<times> call list) Hooks" where
  "counting hooks =
     \<lparr>created = (\<lambda>h (w, calls). (created hooks h w, calls @ [CallCreated])),
      destroyed = (\<lambda>h (w, calls). (destroyed hooks h w, calls @ [CallDestroyed])),
      read = (\<lambda>d (w, calls). (let (r, d', w') = read hooks d w in (r, d', (w', calls @ [CallRead])))),
      write' = (\<lambda>d v (w, calls). (let (d', w') = write' hooks d v w in (d', (w', calls @ [CallWrite]))))\<rparr>"

text \<open>
  The hook set that the documentation of \<open>Handle\<close> gives as its example: \<open>created\<close> and
  \<open>destroyed\<close> do nothing, \<open>read\<close> returns \<open>*ptr\<close> and \<open>write\<close> sets \<open>*ptr = value\<close>.
\<close>

definition HandleHooks :: "('d, 'w) Hooks" where
  "HandleHooks =
     \<lparr>created = (\<lambda>handle w. w),
      destroyed = (\<lambda>handle w. w),
      read = (\<lambda>ptr w. (ptr, ptr, w)),
      write' = (\<lambda>ptr val w. (val, w))\<rparr>"

section \<open>Member handles (src/src/member.h, src/src/storage/member\_handle\_hooks.h)\<close>

text \<open>
  The collector's barriers, \<open>GCHooks::read(void** ptr)\<close> and
  \<open>GCHooks::write(void** ptr, void* value)\<close>, with the same reading as the hooks of a
  handle: \<open>gc_read\<close> yields the pointer returned, the new content of \<open>*ptr\<close> and the new
  state of the collector; \<open>gc_write\<close> yields the new content of \<open>*ptr\<close> and the new
  state. Where the field lies in memory is not part of the model.
\<close>

record ('p, 'w) GCHooks =
  gc_read :: "'p \<Rightarrow> 'w \<Rightarrow> 'p \<times> 'p \<times> 'w"
  gc_write :: "'p \<Rightarrow> 'p \<Rightarrow> 'w \<Rightarrow> 'p \<times> 'w"

definition MemberHandleHooks :: "('p, 'w) GCHooks \<Rightarrow> ('p, 'w) Hooks" where
  "MemberHandleHooks gc =
     \<lparr>created = (\<lambda>handle w. w),
      destroyed = (\<lambda>handle w. w),
      read = (\<lambda>ptr w. gc_read gc ptr w),
      write' = (\<lambda>ptr val w. gc_write gc ptr val w)\<rparr>"

text \<open>
  The collector of the tests (\<open>MockGCHooks\<close>): \<open>read\<close> returns \<open>*ptr\<close>, \<open>write\<close> sets
  \<open>*ptr = value\<close>.
\<close>

definition MockGCHooks :: "('p, 'w) GCHooks" where
  "MockGCHooks =
     \<lparr>gc_read = (\<lambda>ptr w. (ptr, ptr, w)),
      gc_write = (\<lambda>ptr val w. (val, w))\<rparr>"

text \<open>
  A read barrier is transparent when it returns the pointer that the field holds and
  leaves the field as it is, whatever else it does.
\<close>

definition transparent :: "('p, 'w) GCHooks \<Rightarrow> bool" where
  "transparent gc \<longleftrightarrow> (\<forall>ptr w. \<exists>w'. gc_read gc ptr w = (ptr, ptr, w'))"

text \<open>
  A read barrier leaves the field when the field holds the same pointer after the call,
  whatever the barrier returns and whatever else it does.
\<close>

definition leaves_field :: "('p, 'w) GCHooks \<Rightarrow> bool" where
  "leaves_field gc \<longleftrightarrow> (\<forall>ptr w. \<exists>r w'. gc_read gc ptr w = (r, ptr, w'))"

text \<open>
  Two collectors of the kind that the documentation of \<open>Handle\<close> allows (\<open>read\<close> may
  update the reference and may return anything). The read barrier of the first returns
  a fixed pointer, as a barrier does that forwards to another object, and leaves the
  field; the read barrier of the second returns the pointer held and sets the field to
  a fixed pointer. Both write as the collector of the tests does.
\<close>

definition ForwardingGCHooks :: "'p \<Rightarrow> ('p, 'w) GCHooks" where
  "ForwardingGCHooks target =
     \<lparr>gc_read = (\<lambda>ptr w. (target, ptr, w)),
      gc_write = (\<lambda>ptr val w. (val, w))\<rparr>"

definition RedirectingGCHooks :: "'p \<Rightarrow> ('p, 'w) GCHooks" where
  "RedirectingGCHooks target =
     \<lparr>gc_read = (\<lambda>ptr w. (ptr, target, w)),
      gc_write = (\<lambda>ptr val w. (val, w))\<rparr>"

section \<open>Storage descriptors (src/unnamed/part\_000, the header storage\_descriptor.h)\<close>

text \<open>
  A pointer to a \<open>StorageDescriptor\<close>: null, the address of the static sentinel
  \<open>boxed\<close>, or an address in allocated memory.
\<close>

datatype SDptr = NULL | AddrBoxed | Heap nat

text \<open>
  \<open>Slot\<close>: the member \<open>storageDescriptor\<close> is a \<open>MemberRef<const SD, GCHooks>\<close>, a
  strong reference handle holding the pointer.
\<close>

record Slot =
  storageDescriptor :: "SDptr Handle"
  type :: HandleType
  offset :: nat

text \<open>
  The data members of \<open>StorageDescriptor\<close>, \<open>_sizeWithEmptyArray\<close> to \<open>_values\<close>.
  \<open>_values\<close> is the memory behind the object: \<open>sd_values\<close> gives the slots that have
  been constructed there, by their distance in bytes from the start of \<open>_values\<close>.
\<close>

record StorageDescriptor =
  sd_sizeWithEmptyArray :: nat
  sd_hasArray :: bool
  sd_array :: Slot
  sd_numValues :: nat
  sd_values :: "nat \<rightharpoonup> Slot"

definition hasArray :: "StorageDescriptor \<Rightarrow> bool" where
  "hasArray this = sd_hasArray this"

definition isBoxed :: "SDptr \<Rightarrow> bool" where
  "isBoxed this = (this = AddrBoxed)"

definition array :: "StorageDescriptor \<Rightarrow> Slot" where
  "array this = sd_array this"

text \<open>
  The static objects \<open>Slot::empty\<close>, which is \<open>Slot(NULL, REFERENCE, 0)\<close>, and \<open>boxed\<close>,
  constructed from size 0, no array, the same slot as array slot and no values: their
  members as the constructors set them.
\<close>

definition Slot_empty :: Slot where
  "Slot_empty =
     \<lparr>storageDescriptor = \<lparr>handleType = REFERENCE, data = AddrBoxed\<rparr>,
      type = REFERENCE, offset = 0\<rparr>"

definition boxed :: StorageDescriptor where
  "boxed =
     \<lparr>sd_sizeWithEmptyArray = 0, sd_hasArray = False, sd_array = Slot_empty,
      sd_numValues = 0, sd_values = Map.empty\<rparr>"

text \<open>
  Memory for descriptors: a list of cells, an address being an index. \<open>new\<close> appends an
  uninitialised cell; placement construction fills a cell. Dereferencing a pointer
  gives a descriptor only where an initialised one lives.
\<close>

datatype cell = Uninitialized | Object StorageDescriptor

definition deref :: "cell list \<Rightarrow> SDptr \<Rightarrow> StorageDescriptor option" where
  "deref heap p =
     (case p of
        NULL \<Rightarrow> None
      | AddrBoxed \<Rightarrow> Some boxed
      | Heap a \<Rightarrow>
          (if a < length heap
           then (case heap ! a of Uninitialized \<Rightarrow> None | Object sd \<Rightarrow> Some sd)
           else None))"

text \<open>
  The constructor of \<open>Slot\<close>. \<open>storageDescriptor_ ?: &boxed\<close> initialises the member
  handle; both checks read it through the handle, so through the collector's read
  barrier. In the second check \<open>||\<close> evaluates \<open>storageDescriptor->hasArray()\<close> only for
  a value slot; dereferencing a pointer to no initialised descriptor is undefined.
\<close>

definition Slot_ctor :: "(SDptr, 'w) GCHooks \<Rightarrow> cell list \<Rightarrow> SDptr \<Rightarrow> HandleType \<Rightarrow> nat \<Rightarrow> 'w
    \<Rightarrow> (error \<times> 'w) + (Slot \<times> 'w)" where
  "Slot_ctor gc heap storageDescriptor' type' offset' w =
     (let hooks = MemberHandleHooks gc;
          (sd0, w0) = Handle_value hooks REFERENCE
                        (if storageDescriptor' \<noteq> NULL then storageDescriptor' else AddrBoxed) w;
          (p1, sd1, w1) = get hooks sd0 w0
      in ARW_CHECK (p1 \<noteq> Referent AddrBoxed \<or> VALUE \<noteq> type') w1
           (if VALUE \<noteq> type'
            then Inr (\<lparr>storageDescriptor = sd1, type = type', offset = offset'\<rparr>, w1)
            else (let (p2, sd2, w2) = operator_arrow hooks sd1 w1
                  in case (case p2 of Referent p \<Rightarrow> deref heap p | InPlace p \<Rightarrow> None) of
                       None \<Rightarrow> Inl (Undefined, w2)
                     | Some target \<Rightarrow>
                         ARW_CHECK (VALUE \<noteq> type' \<or> \<not> hasArray target) w2
                           (Inr (\<lparr>storageDescriptor = sd2, type = type', offset = offset'\<rparr>, w2)))))"

text \<open>
  \<open>ARW_ASSERT\<close> is \<open>ARW_CHECK\<close> when \<open>DEBUG\<close> is defined and nothing otherwise.
\<close>

definition ARW_ASSERT :: "bool \<Rightarrow> bool \<Rightarrow> 's \<Rightarrow> (error \<times> 's) + 'r \<Rightarrow> (error \<times> 's) + 'r" where
  "ARW_ASSERT DEBUG condition s rest = (if DEBUG then ARW_CHECK condition s rest else rest)"

text \<open>
  \<open>_values\<close> is declared \<open>MemberVal<Slot[0], GCHooks>\<close>, so \<open>_values.get()\<close> is a pointer to
  \<open>Slot[0]\<close>, an array of no elements. Such an array (a compiler extension) has size
  zero.
\<close>

definition sizeof_Slot_array_0 :: nat where
  "sizeof_Slot_array_0 = 0"

text \<open>
  The loop of the private constructor constructs a copy of each slot at
  \<open>_values.get()[numValues]\<close> and counts the copies in \<open>numValues\<close>. The index advances the
  pointer by \<open>numValues\<close> times the size of what it points to, so every copy is
  constructed at the start of \<open>_values\<close>, over the copy before. Copying a slot copies its
  member handle, whose \<open>created\<close> hook does nothing.
\<close>

fun copy_values :: "Slot list \<Rightarrow> nat \<Rightarrow> (nat \<rightharpoonup> Slot) \<Rightarrow> nat \<times> (nat \<rightharpoonup> Slot)" where
  "copy_values [] numValues constructed = (numValues, constructed)"
| "copy_values (v # vs) numValues constructed =
     copy_values vs (Suc numValues) (constructed(numValues * sizeof_Slot_array_0 \<mapsto> v))"

text \<open>
  The private constructor: the member initialisers, the loop, and the assertion at its
  end. When the assertion halts, the object is as the constructor has left it.
\<close>

definition StorageDescriptor_ctor :: "bool \<Rightarrow> nat \<Rightarrow> bool \<Rightarrow> Slot \<Rightarrow> Slot list
    \<Rightarrow> (error \<times> StorageDescriptor) + StorageDescriptor" where
  "StorageDescriptor_ctor DEBUG sizeWithEmptyArray hasArray' array' vals =
     (let (numValues, constructed) = copy_values vals 0 Map.empty;
          this = \<lparr>sd_sizeWithEmptyArray = sizeWithEmptyArray, sd_hasArray = hasArray',
                  sd_array = array', sd_numValues = numValues, sd_values = constructed\<rparr>
      in ARW_ASSERT DEBUG (sizeWithEmptyArray \<noteq> 0 \<or> (\<not> hasArray' \<and> 0 = numValues)) this
           (Inr this))"

text \<open>
  \<open>init\<close> constructs the descriptor in the memory at \<open>obj\<close> and returns \<open>obj\<close>. The
  memory must have been allocated; anything else is undefined.
\<close>

definition init :: "bool \<Rightarrow> SDptr \<Rightarrow> nat \<Rightarrow> bool \<Rightarrow> Slot \<Rightarrow> Slot list \<Rightarrow> cell list
    \<Rightarrow> (error \<times> cell list) + (SDptr \<times> cell list)" where
  "init DEBUG obj sizeWithEmptyArray hasArray' array' vals heap =
     (case obj of
        Heap a \<Rightarrow>
          (if a < length heap
           then (case StorageDescriptor_ctor DEBUG sizeWithEmptyArray hasArray' array' vals of
                   Inl (e, this) \<Rightarrow> Inl (e, heap[a := Object this])
                 | Inr this \<Rightarrow> Inr (obj, heap[a := Object this]))
           else Inl (Undefined, heap))
      | _ \<Rightarrow> Inl (Undefined, heap))"

section \<open>The type-descriptor registry (type\_storage.h, the second part of src/src/storage/member\_handle\_hooks.h)\<close>

text \<open>
  What \<open>TypeStorage::slot\<close> and \<open>TypeStorage::arraySlot\<close> take from a pointer to member
  \<open>V U::*member\<close>: the type whose descriptor is looked up (\<open>V::value_type\<close>, for the array
  \<open>V::storage_type\<close>), the discipline (\<open>V::handleType\<close>, for the array \<open>U::handleType\<close>)
  and the offset of the member. Types are named by strings.
\<close>

record member =
  m_value_type :: string
  m_handleType :: HandleType
  m_offset :: nat

text \<open>
  One specialisation of \<open>ArwInternalGetStorageDescriptor\<close>, that is the arguments of
  \<open>ARW_DEFINE_STORAGE_BEGIN(n, klass, hasArray, array)\<close> and the list of values between
  the two macros: \<open>n\<close>, \<open>sizeof(klass)\<close>, \<open>hasArray\<close>, the array member (\<open>None\<close> where the
  macro passes \<open>Slot::empty\<close>) and the members.
\<close>

record storage_definition =
  def_n :: nat
  def_sizeof :: nat
  def_hasArray :: bool
  def_array :: "member option"
  def_values :: "member list"

definition ARW_DEFINE_STORAGE_0 :: "nat \<Rightarrow> storage_definition" where
  "ARW_DEFINE_STORAGE_0 sizeof_klass =
     \<lparr>def_n = 1, def_sizeof = sizeof_klass, def_hasArray = False, def_array = None,
      def_values = []\<rparr>"

definition ARW_DEFINE_STORAGE_ARR_0 :: "nat \<Rightarrow> member \<Rightarrow> storage_definition" where
  "ARW_DEFINE_STORAGE_ARR_0 sizeof_klass array' =
     \<lparr>def_n = 1, def_sizeof = sizeof_klass, def_hasArray = True, def_array = Some array',
      def_values = []\<rparr>"

definition ARW_DEFINE_STORAGE_1 :: "nat \<Rightarrow> member \<Rightarrow> storage_definition" where
  "ARW_DEFINE_STORAGE_1 sizeof_klass member1 =
     \<lparr>def_n = 1, def_sizeof = sizeof_klass, def_hasArray = False, def_array = None,
      def_values = [member1]\<rparr>"

definition ARW_DEFINE_STORAGE_ARR_1 :: "nat \<Rightarrow> member \<Rightarrow> member \<Rightarrow> storage_definition" where
  "ARW_DEFINE_STORAGE_ARR_1 sizeof_klass array' member1 =
     \<lparr>def_n = 1, def_sizeof = sizeof_klass, def_hasArray = True, def_array = Some array',
      def_values = [member1]\<rparr>"

definition ARW_DEFINE_STORAGE_2 :: "nat \<Rightarrow> member \<Rightarrow> member \<Rightarrow> storage_definition" where
  "ARW_DEFINE_STORAGE_2 sizeof_klass member1 member2 =
     \<lparr>def_n = 2, def_sizeof = sizeof_klass, def_hasArray = False, def_array = None,
      def_values = [member1, member2]\<rparr>"

definition ARW_DEFINE_STORAGE_ARR_2 :: "nat \<Rightarrow> member \<Rightarrow> member \<Rightarrow> member \<Rightarrow> storage_definition" where
  "ARW_DEFINE_STORAGE_ARR_2 sizeof_klass array' member1 member2 =
     \<lparr>def_n = 2, def_sizeof = sizeof_klass, def_hasArray = True, def_array = Some array',
      def_values = [member1, member2]\<rparr>"

text \<open>
  The state that the lookups share: for each specialisation its function-local static
  \<open>_arw_macro_storage\<close> (null at first), the memory, the types for which memory has been
  allocated, in order, and the state of the collector.
\<close>

record 'w Registry =
  arw_macro_storage :: "string \<Rightarrow> SDptr"
  memory :: "cell list"
  allocated :: "string list"
  collector :: 'w

definition Registry :: "'w \<Rightarrow> 'w Registry" where
  "Registry w = \<lparr>arw_macro_storage = (\<lambda>klass. NULL), memory = [], allocated = [], collector = w\<rparr>"

text \<open>
  A call either does not return (\<open>None\<close>), halts with an error in some state, or returns
  a value and a state. \<open>and_then\<close> continues after a call that returned.
\<close>

type_synonym ('a, 's) outcome = "((error \<times> 's) + ('a \<times> 's)) option"

definition and_then :: "('a, 's) outcome \<Rightarrow> ('a \<Rightarrow> 's \<Rightarrow> ('b, 's) outcome) \<Rightarrow> ('b, 's) outcome" where
  "and_then r rest =
     (case r of
        None \<Rightarrow> None
      | Some (Inl e) \<Rightarrow> Some (Inl e)
      | Some (Inr (a, s)) \<Rightarrow> rest a s)"

text \<open>
  \<open>TypeStorage::slot\<close>: the descriptor of the member's type is looked up, then the slot
  is constructed. \<open>lookup\<close> stands for \<open>ArwInternalGetStorageDescriptor<GCHooks, T>::get\<close>
  at the type named.
\<close>

definition slot :: "(string \<Rightarrow> 'w Registry \<Rightarrow> (SDptr, 'w Registry) outcome) \<Rightarrow> (SDptr, 'w) GCHooks
    \<Rightarrow> member \<Rightarrow> 'w Registry \<Rightarrow> (Slot, 'w Registry) outcome" where
  "slot lookup gc m reg =
     and_then (lookup (m_value_type m) reg)
       (\<lambda>descriptor reg'.
          Some (case Slot_ctor gc (memory reg') descriptor (m_handleType m) (m_offset m) (collector reg') of
                  Inl (e, w) \<Rightarrow> Inl (e, reg'\<lparr>collector := w\<rparr>)
                | Inr (s, w) \<Rightarrow> Inr (s, reg'\<lparr>collector := w\<rparr>)))"

definition arraySlot :: "(string \<Rightarrow> 'w Registry \<Rightarrow> (SDptr, 'w Registry) outcome) \<Rightarrow> (SDptr, 'w) GCHooks
    \<Rightarrow> member \<Rightarrow> 'w Registry \<Rightarrow> (Slot, 'w Registry) outcome" where
  "arraySlot lookup gc m reg =
     and_then (lookup (m_value_type m) reg)
       (\<lambda>descriptor reg'.
          Some (case Slot_ctor gc (memory reg') descriptor (m_handleType m) (m_offset m) (collector reg') of
                  Inl (e, w) \<Rightarrow> Inl (e, reg'\<lparr>collector := w\<rparr>)
                | Inr (s, w) \<Rightarrow> Inr (s, reg'\<lparr>collector := w\<rparr>)))"

text \<open>The braced list of \<open>slot\<close> calls, evaluated from left to right.\<close>

fun slots :: "(string \<Rightarrow> 'w Registry \<Rightarrow> (SDptr, 'w Registry) outcome) \<Rightarrow> (SDptr, 'w) GCHooks
    \<Rightarrow> member list \<Rightarrow> 'w Registry \<Rightarrow> (Slot list, 'w Registry) outcome" where
  "slots lookup gc [] reg = Some (Inr ([], reg))"
| "slots lookup gc (m # ms) reg =
     and_then (slot lookup gc m reg)
       (\<lambda>s reg'. and_then (slots lookup gc ms reg') (\<lambda>ss reg''. Some (Inr (s # ss, reg''))))"

text \<open>
  \<open>ArwInternalGetStorageDescriptor<GCHooks, klass>::get\<close>, as the macros define it. A
  type without a specialisation has no definition of \<open>get\<close>. The function calls itself
  through \<open>slot\<close> and \<open>arraySlot\<close>; the first argument bounds the depth of these calls,
  and \<open>None\<close> is the result when the bound is reached. The array argument is evaluated
  before the list of values (C++ leaves the order of the two open).
\<close>

primrec get_descriptor :: "nat \<Rightarrow> (SDptr, 'w) GCHooks \<Rightarrow> bool \<Rightarrow> (string \<rightharpoonup> storage_definition)
    \<Rightarrow> string \<Rightarrow> 'w Registry \<Rightarrow> (SDptr, 'w Registry) outcome" where
  "get_descriptor 0 gc DEBUG defs klass reg = None"
| "get_descriptor (Suc depth) gc DEBUG defs klass reg =
     (if arw_macro_storage reg klass \<noteq> NULL then Some (Inr (arw_macro_storage reg klass, reg))
      else case defs klass of
        None \<Rightarrow> Some (Inl (NotRegistered, reg))
      | Some d \<Rightarrow>
          (let reg1 = reg\<lparr>arw_macro_storage := (arw_macro_storage reg)(klass := Heap (length (memory reg))),
                          memory := memory reg @ [Uninitialized],
                          allocated := allocated reg @ [klass]\<rparr>
           in and_then (case def_array d of
                          None \<Rightarrow> Some (Inr (Slot_empty, reg1))
                        | Some m \<Rightarrow> arraySlot (get_descriptor depth gc DEBUG defs) gc m reg1)
                (\<lambda>array' reg2.
                   and_then (slots (get_descriptor depth gc DEBUG defs) gc (def_values d) reg2)
                     (\<lambda>vals reg3.
                        Some (case init DEBUG (arw_macro_storage reg3 klass) (def_sizeof d)
                                     (def_hasArray d) array' vals (memory reg3) of
                                Inl (e, heap') \<Rightarrow> Inl (e, reg3\<lparr>memory := heap'\<rparr>)
                              | Inr (obj, heap') \<Rightarrow>
                                  Inr (arw_macro_storage reg3 klass, reg3\<lparr>memory := heap'\<rparr>))))))"

text \<open>
  \<open>arw::storageDescriptor<GCHooks, T>()\<close>, a call from outside the registry, and a
  sequence of such calls.
\<close>

definition storageDescriptor_of :: "nat \<Rightarrow> (SDptr, 'w) GCHooks \<Rightarrow> bool \<Rightarrow> (string \<rightharpoonup> storage_definition)
    \<Rightarrow> string \<Rightarrow> 'w Registry \<Rightarrow> (SDptr, 'w Registry) outcome" where
  "storageDescriptor_of depth gc DEBUG defs T reg = get_descriptor depth gc DEBUG defs T reg"

fun lookups :: "nat \<Rightarrow> (SDptr, 'w) GCHooks \<Rightarrow> bool \<Rightarrow> (string \<rightharpoonup> storage_definition)
    \<Rightarrow> string list \<Rightarrow> 'w Registry \<Rightarrow> (SDptr list, 'w Registry) outcome" where
  "lookups depth gc DEBUG defs [] reg = Some (Inr ([], reg))"
| "lookups depth gc DEBUG defs (T # Ts) reg =
     and_then (storageDescriptor_of depth gc DEBUG defs T reg)
       (\<lambda>p reg'. and_then (lookups depth gc DEBUG defs Ts reg') (\<lambda>ps reg''. Some (Inr (p # ps, reg''))))"

text \<open>
  Three notions for stating what the registry guarantees. One state keeps another's
  descriptors when every static that was set still holds the same pointer. Memory has
  been allocated once when each type occurs in the list of allocations once if its
  static is set and not at all otherwise. A lookup function is caching when every call
  that returns gives a non-null pointer, which the static of the type then holds, keeps
  the descriptors of the state it started in, and preserves that memory has been
  allocated once.
\<close>

definition keeps :: "'w Registry \<Rightarrow> 'w Registry \<Rightarrow> bool" where
  "keeps reg reg' \<longleftrightarrow>
     (\<forall>klass. arw_macro_storage reg klass \<noteq> NULL \<longrightarrow>
        arw_macro_storage reg' klass = arw_macro_storage reg klass)"

definition allocated_once :: "'w Registry \<Rightarrow> bool" where
  "allocated_once reg \<longleftrightarrow>
     (\<forall>klass. count_list (allocated reg) klass = (if arw_macro_storage reg klass = NULL then 0 else 1))"

definition caching :: "(string \<Rightarrow> 'w Registry \<Rightarrow> (SDptr, 'w Registry) outcome) \<Rightarrow> bool" where
  "caching lookup \<longleftrightarrow>
     (\<forall>klass reg p reg'. lookup klass reg = Some (Inr (p, reg')) \<longrightarrow>
        p \<noteq> NULL \<and> arw_macro_storage reg' klass = p \<and> keeps reg reg'
        \<and> (allocated_once reg \<longrightarrow> allocated_once reg'))"

text \<open>
  Two more notions. A lookup function grows the memory when the memory before a call
  that returns is an initial part of the memory after it. The descriptor of a type \<open>T\<close>
  is self-described in a state when the static of \<open>T\<close> is null or points to an
  initialised descriptor without array whose single slot is a strong reference, at the
  given offset, holding the same pointer.
\<close>

definition grows :: "(string \<Rightarrow> 'w Registry \<Rightarrow> (SDptr, 'w Registry) outcome) \<Rightarrow> bool" where
  "grows lookup \<longleftrightarrow>
     (\<forall>klass reg p reg'. lookup klass reg = Some (Inr (p, reg')) \<longrightarrow>
        take (length (memory reg)) (memory reg') = memory reg)"

definition self_described :: "string \<Rightarrow> nat \<Rightarrow> 'w Registry \<Rightarrow> bool" where
  "self_described T off reg \<longleftrightarrow>
     arw_macro_storage reg T = NULL
     \<or> (\<exists>sd s. deref (memory reg) (arw_macro_storage reg T) = Some sd
          \<and> \<not> hasArray sd \<and> sd_numValues sd = 1 \<and> sd_values sd = [0 \<mapsto> s]
          \<and> data (storageDescriptor s) = arw_macro_storage reg T
          \<and> type s = REFERENCE \<and> offset s = off)"

text \<open>
  The types that the registry tests declare: \<open>Circular\<close> with a strong reference to
  itself, \<open>Members0\<close> without members, \<open>Members1\<close> and \<open>Members2\<close> with one and two strong
  references to \<open>Members0\<close>; sizes and offsets as on a machine with pointers of 8 bytes.
\<close>

definition test_definitions :: "string \<rightharpoonup> storage_definition" where
  "test_definitions =
     [''Circular'' \<mapsto> ARW_DEFINE_STORAGE_1 8
        \<lparr>m_value_type = ''Circular'', m_handleType = REFERENCE, m_offset = 0\<rparr>,
      ''Members0'' \<mapsto> ARW_DEFINE_STORAGE_0 1,
      ''Members1'' \<mapsto> ARW_DEFINE_STORAGE_1 8
        \<lparr>m_value_type = ''Members0'', m_handleType = REFERENCE, m_offset = 0\<rparr>,
      ''Members2'' \<mapsto> ARW_DEFINE_STORAGE_2 16
        \<lparr>m_value_type = ''Members0'', m_handleType = REFERENCE, m_offset = 0\<rparr>
        \<lparr>m_value_type = ''Members0'', m_handleType = REFERENCE, m_offset = 8\<rparr>]"

section \<open>The allocation mixin (src/src/storage/newable.h)\<close>

text \<open>
  \<open>Newable<ChildClass, GCHooks>::operator new(std::size_t sz)\<close> returns
  \<open>GCHooks::allocate(sizeof(ChildClass) * sz)\<close>, a product of two \<open>size_t\<close>;
  \<open>operator delete\<close> has an empty body. \<open>allocate\<close> is the collector's function: it
  yields a pointer and the new state of the collector.
\<close>

definition operator_new :: "('s::len word \<Rightarrow> 'w \<Rightarrow> 'p \<times> 'w) \<Rightarrow> 's word \<Rightarrow> 's word \<Rightarrow> 'w \<Rightarrow> 'p \<times> 'w" where
  "operator_new allocate sizeof_ChildClass sz w = allocate (sizeof_ChildClass * sz) w"

definition operator_delete :: "'p \<Rightarrow> 's::len word \<Rightarrow> 'w \<Rightarrow> 'w" where
  "operator_delete ptr sz w = w"

text \<open>
  The expression \<open>new T\<close>, for a \<open>T\<close> that derives from \<open>Newable<T, GCHooks>\<close>: C++ calls
  the class's \<open>operator new\<close> with \<open>sizeof(T)\<close>, the number of bytes of one object, and
  the expression has the value that \<open>operator new\<close> returned.
\<close>

definition new_expression :: "('s::len word \<Rightarrow> 'w \<Rightarrow> 'p \<times> 'w) \<Rightarrow> 's word \<Rightarrow> 'w \<Rightarrow> 'p \<times> 'w" where
  "new_expression allocate sizeof_T w = operator_new allocate sizeof_T sizeof_T w"

text \<open>An allocation function wrapped to record the sizes it is asked for.\<close>

definition recording :: "('s::len word \<Rightarrow> 'w \<Rightarrow> 'p \<times> 'w) \<Rightarrow> 's word \<Rightarrow> 'w \<times> 's word list
    \<Rightarrow> 'p \<times> 'w \<times> 's word list" where
  "recording allocate size' = (\<lambda>(w, sizes).
     (let (p, w') = allocate size' w in (p, (w', sizes @ [size']))))"

section \<open>Properties of the shadow stack\<close>

lemma pushes_append: "pushes vs vec = vec @ vs"
  by (induction vs arbitrary: vec) (simp_all add: push_def)

text \<open>
  Claim C4. \<open>popTo r\<close> halts with the fatal checked error exactly when \<open>r\<close> is greater
  than the number of entries, and then nothing has been popped; otherwise it leaves the
  first \<open>r\<close> pushed entries, unchanged and in push order. From the empty stack,
  \<open>push a; r1 = top; push b; popTo r1\<close> (\<open>top\<close> is \<open>top_ref\<close> here) leaves only \<open>a\<close>.
\<close>

theorem popTo_truncates:
  fixes es :: "('d \<times> 'a) list" and a b :: "'d \<times> 'a"
  shows "((\<exists>e s. popTo r (pushes es LocalStack) = Inl (e, s)) \<longleftrightarrow> r > top_ref (pushes es LocalStack))
       \<and> (r > top_ref (pushes es LocalStack) \<longrightarrow> popTo r (pushes es LocalStack) = Inl (Fatal, pushes es LocalStack))
       \<and> (r \<le> top_ref (pushes es LocalStack) \<longrightarrow> popTo r (pushes es LocalStack) = Inr (take r es))
       \<and> popTo (top_ref (push a LocalStack)) (push b (push a LocalStack)) = Inr [a]"
  by (auto simp: popTo_def ARW_CHECK_def Check_def top_ref_def push_def pushes_append LocalStack_def)

theorem popTo_truncates_witness:
  "popTo 3 (pushes [(1::nat, 10::nat), (2, 20)] LocalStack) = Inl (Fatal, [(1, 10), (2, 20)])
   \<and> popTo 1 (pushes [(1::nat, 10::nat), (2, 20)] LocalStack) = Inr [(1, 10)]"
  using popTo_truncates [of 3 "[(1::nat, 10::nat), (2, 20)]" "(1, 10)" "(2, 20)"]
        popTo_truncates [of 1 "[(1::nat, 10::nat), (2, 20)]" "(1, 10)" "(2, 20)"]
  by (simp add: top_ref_def pushes_append LocalStack_def)

section \<open>Properties of the persistent pool\<close>

text \<open>
  Claim C5. \<open>add\<close> on an absent identity inserts an entry with reference count 1; on a
  present identity with an equal descriptor it increments the count of that one entry
  (the keys of the pool stay the same). \<open>remove\<close> on a present identity decrements the
  count and erases the entry exactly when the count has reached zero. So
  \<open>add x d; add x d; remove x\<close> leaves \<open>x\<close> present with count 1, and one more
  \<open>remove x\<close> gives back the pool as it was, the empty pool when it started empty.
\<close>

theorem pool_refcounting:
  fixes m :: "('k, 'd, 'w::len) PersistentPool"
  shows "(m x = None \<longrightarrow> add x d m = Inr (m(x \<mapsto> (d, 1))))
       \<and> (m x = Some (d, c) \<longrightarrow>
            add x d m = Inr (m(x \<mapsto> (d, c + 1))) \<and> dom (m(x \<mapsto> (d, c + 1))) = dom m)
       \<and> (m x = Some (d', c) \<longrightarrow>
            remove x m = Inr (if c - 1 = 0 then m(x := None) else m(x \<mapsto> (d', c - 1))))
       \<and> (m x = None \<longrightarrow>
            pool_calls [Add x d, Add x d, Remove x] m = Inr (m(x \<mapsto> (d, 1)))
          \<and> \<not> pool_empty (m(x \<mapsto> (d, 1)))
          \<and> pool_calls [Add x d, Add x d, Remove x, Remove x] m = Inr m)
       \<and> pool_calls [Add x d, Add x d, Remove x, Remove x]
            (PersistentPool :: ('k, 'd, 'w) PersistentPool) = Inr PersistentPool
       \<and> pool_empty (PersistentPool :: ('k, 'd, 'w) PersistentPool)"
  by (auto simp: add_def remove_def ARW_CHECK_def pool_empty_def PersistentPool_def)

theorem pool_refcounting_witness:
  "add 7 3 (PersistentPool :: (nat, nat, 64) PersistentPool) = Inr [7 \<mapsto> (3::nat, 1)]
   \<and> pool_calls [Add (7::nat) (3::nat), Add 7 3, Remove 7] (PersistentPool :: (nat, nat, 64) PersistentPool)
     = Inr [7 \<mapsto> (3, 1)]
   \<and> remove 7 ([7 \<mapsto> (3::nat, 1)] :: (nat, nat, 64) PersistentPool) = Inr Map.empty
   \<and> add 7 3 ([7 \<mapsto> (3::nat, 1)] :: (nat, nat, 64) PersistentPool) = Inr [7 \<mapsto> (3, 2)]"
  using pool_refcounting [of "PersistentPool :: (nat, nat, 64) PersistentPool" 7 3 1 3]
        pool_refcounting [of "[7 \<mapsto> (3::nat, 1)] :: (nat, nat, 64) PersistentPool" 7 3 1 3]
  by (simp add: PersistentPool_def del: pool_calls.simps)

text \<open>
  Claim C6. \<open>add x d2\<close> when \<open>x\<close> is present with another descriptor \<open>d1\<close> halts with
  the fatal assertion and the pool is as it was; \<open>remove x\<close> when \<open>x\<close> is not present
  (never added, or added and removed again) halts with the fatal assertion and the pool
  is as it was.
\<close>

theorem pool_misuse_is_fatal:
  fixes m :: "('k, 'd, 'w::len) PersistentPool"
  shows "(m x = Some (d1, c) \<and> d1 \<noteq> d2 \<longrightarrow> add x d2 m = Inl (Fatal, m))
       \<and> (m x = None \<longrightarrow> remove x m = Inl (Fatal, m))
       \<and> (m x = None \<longrightarrow> pool_calls [Add x d1, Remove x, Remove x] m = Inl (Fatal, m))
       \<and> (m x = None \<longrightarrow> pool_calls [Add x d1, Add x d2] m = (if d1 = d2 then Inr (m(x \<mapsto> (d1, 2))) else Inl (Fatal, m(x \<mapsto> (d1, 1)))))"
  by (auto simp: add_def remove_def ARW_CHECK_def Check_def)

theorem pool_misuse_is_fatal_witness:
  "add 0 1 ([0 \<mapsto> (0::nat, 1)] :: (nat, nat, 64) PersistentPool) = Inl (Fatal, [0 \<mapsto> (0, 1)])
   \<and> remove (0::nat) (PersistentPool :: (nat, nat, 64) PersistentPool) = Inl (Fatal, PersistentPool)"
  using pool_misuse_is_fatal [of "[0 \<mapsto> (0::nat, 1)] :: (nat, nat, 64) PersistentPool" 0 0 1 1]
        pool_misuse_is_fatal [of "PersistentPool :: (nat, nat, 64) PersistentPool" 0 0 1 1]
  by (simp add: PersistentPool_def)

section \<open>Properties of the reference wrapper\<close>

text \<open>
  Claim C1. With any hook set, wrapped to count its calls: on a handle of reference
  discipline (strong or weak) each of \<open>get\<close>, \<open>operator->\<close>, \<open>operator*\<close> and, for a weak
  handle, the liveness test calls \<open>read\<close> exactly once and nothing else, and each of the
  four assignments calls \<open>write\<close> exactly once and nothing else. On a value handle
  none of these operations, nor \<open>swap\<close>, calls any hook. For every discipline each
  constructor calls \<open>created\<close> exactly once and the destructor calls \<open>destroyed\<close>
  exactly once, and nothing else.
\<close>

theorem hook_calls_counted:
  fixes hooks :: "('d, 'w) Hooks"
  shows "(handleType this \<noteq> VALUE \<longrightarrow>
            snd (snd (snd (get (counting hooks) this (w, calls)))) = calls @ [CallRead]
          \<and> snd (snd (snd (operator_arrow (counting hooks) this (w, calls)))) = calls @ [CallRead]
          \<and> snd (snd (snd (operator_star (counting hooks) this (w, calls)))) = calls @ [CallRead]
          \<and> (handleType this = WEAK \<longrightarrow>
                (\<exists>alive this' w'. operator_bool null (counting hooks) this (w, calls)
                   = Some (alive, this', (w', calls @ [CallRead]))))
          \<and> snd (snd (assign_copy (counting hooks) other this (w, calls))) = calls @ [CallWrite]
          \<and> snd (snd (assign_move (counting hooks) other this (w, calls))) = calls @ [CallWrite]
          \<and> snd (snd (assign_value (counting hooks) val this (w, calls))) = calls @ [CallWrite]
          \<and> snd (snd (assign_value_move (counting hooks) val this (w, calls))) = calls @ [CallWrite])
       \<and> (handleType this = VALUE \<longrightarrow>
            snd (snd (snd (get (counting hooks) this (w, calls)))) = calls
          \<and> snd (snd (snd (operator_arrow (counting hooks) this (w, calls)))) = calls
          \<and> snd (snd (snd (operator_star (counting hooks) this (w, calls)))) = calls
          \<and> snd (snd (assign_copy (counting hooks) other this (w, calls))) = calls
          \<and> snd (snd (assign_move (counting hooks) other this (w, calls))) = calls
          \<and> snd (snd (assign_value (counting hooks) val this (w, calls))) = calls
          \<and> snd (snd (assign_value_move (counting hooks) val this (w, calls))) = calls
          \<and> (handleType other = VALUE \<longrightarrow>
                snd (snd (swap (counting hooks) this other (w, calls))) = calls))
       \<and> snd (snd (Handle_default (counting hooks) Type val (w, calls))) = calls @ [CallCreated]
       \<and> snd (snd (Handle_copy (counting hooks) other (w, calls))) = calls @ [CallCreated]
       \<and> snd (snd (Handle_move (counting hooks) other (w, calls))) = calls @ [CallCreated]
       \<and> snd (snd (Handle_value (counting hooks) Type val (w, calls))) = calls @ [CallCreated]
       \<and> snd (snd (Handle_value_move (counting hooks) Type val (w, calls))) = calls @ [CallCreated]
       \<and> snd (Handle_destroy (counting hooks) this (w, calls)) = calls @ [CallDestroyed]"
  by (simp add: get_def operator_arrow_def operator_star_def operator_bool_def
        assign_copy_def assign_move_def assign_value_def assign_value_move_def Handle_write_def
        swap_def Handle_default_def Handle_copy_def Handle_move_def Handle_value_def
        Handle_value_move_def Handle_destroy_def wasCreated_def wasDestroyed_def counting_def
        split_beta Let_def)

theorem hook_calls_counted_witness:
  "snd (snd (snd (get (counting HandleHooks) \<lparr>handleType = REFERENCE, data = 5::nat\<rparr> ((), []))))
     = [CallRead]
   \<and> snd (snd (assign_value (counting HandleHooks) 6 \<lparr>handleType = REFERENCE, data = 5::nat\<rparr> ((), [])))
     = [CallWrite]
   \<and> snd (snd (snd (get (counting HandleHooks) \<lparr>handleType = VALUE, data = 5::nat\<rparr> ((), []))))
     = []
   \<and> snd (snd (assign_value (counting HandleHooks) 6 \<lparr>handleType = VALUE, data = 5::nat\<rparr> ((), [])))
     = []
   \<and> snd (snd (Handle_value (counting HandleHooks) WEAK (6::nat) ((), []))) = [CallCreated]"
  using hook_calls_counted [where this = "\<lparr>handleType = REFERENCE, data = 5::nat\<rparr>"
          and hooks = "HandleHooks :: (nat, unit) Hooks" and w = "()" and calls = "[]" and val = 6
          and Type = WEAK and other = "\<lparr>handleType = REFERENCE, data = 5::nat\<rparr>" and null = 0]
        hook_calls_counted [where this = "\<lparr>handleType = VALUE, data = 5::nat\<rparr>"
          and hooks = "HandleHooks :: (nat, unit) Hooks" and w = "()" and calls = "[]" and val = 6
          and Type = WEAK and other = "\<lparr>handleType = VALUE, data = 5::nat\<rparr>" and null = 0]
  by simp

text \<open>
  Claim C10. Each of the five constructors stores the storage value it is given (the
  source handle's \<open>_data\<close>, or the value passed) unchanged in the new handle, and the
  only hook it calls is \<open>created\<close>, once, on the new handle: neither \<open>read\<close> nor \<open>write\<close>
  runs, also when a reference handle is copied. The default constructor has no source;
  its \<open>_data\<close> is what default initialisation leaves.
\<close>

theorem construction_stores_directly:
  fixes hooks :: "('d, 'w) Hooks"
  shows "Handle_default (counting hooks) Type indeterminate (w, calls)
           = (\<lparr>handleType = Type, data = indeterminate\<rparr>,
              (created hooks \<lparr>handleType = Type, data = indeterminate\<rparr> w, calls @ [CallCreated]))
       \<and> Handle_copy (counting hooks) other (w, calls)
           = (\<lparr>handleType = handleType other, data = data other\<rparr>,
              (created hooks \<lparr>handleType = handleType other, data = data other\<rparr> w, calls @ [CallCreated]))
       \<and> Handle_move (counting hooks) other (w, calls)
           = (\<lparr>handleType = handleType other, data = data other\<rparr>,
              (created hooks \<lparr>handleType = handleType other, data = data other\<rparr> w, calls @ [CallCreated]))
       \<and> Handle_value (counting hooks) Type val (w, calls)
           = (\<lparr>handleType = Type, data = val\<rparr>,
              (created hooks \<lparr>handleType = Type, data = val\<rparr> w, calls @ [CallCreated]))
       \<and> Handle_value_move (counting hooks) Type val (w, calls)
           = (\<lparr>handleType = Type, data = val\<rparr>,
              (created hooks \<lparr>handleType = Type, data = val\<rparr> w, calls @ [CallCreated]))"
  by (simp add: Handle_default_def Handle_copy_def Handle_move_def Handle_value_def
        Handle_value_move_def wasCreated_def counting_def Let_def)

theorem construction_stores_directly_witness:
  "Handle_copy (counting HandleHooks) \<lparr>handleType = REFERENCE, data = 5::nat\<rparr> ((), [])
     = (\<lparr>handleType = REFERENCE, data = 5\<rparr>, ((), [CallCreated]))"
  using construction_stores_directly [where hooks = "HandleHooks :: (nat, unit) Hooks"
          and other = "\<lparr>handleType = REFERENCE, data = 5::nat\<rparr>" and w = "()" and calls = "[]"]
  by simp

section \<open>Properties of storage descriptors\<close>

lemma transparent_MockGCHooks: "transparent MockGCHooks"
  by (simp add: transparent_def MockGCHooks_def)

lemma leaves_field_MockGCHooks: "leaves_field MockGCHooks"
  by (simp add: leaves_field_def MockGCHooks_def)

lemma copy_values_eq:
  "copy_values vs n constructed =
     (n + length vs, if vs = [] then constructed else constructed(0 \<mapsto> last vs))"
  by (induction vs arbitrary: n constructed) (simp_all add: sizeof_Slot_array_0_def)

text \<open>
  With a transparent read barrier the constructor of \<open>Slot\<close> is a function of its
  arguments and of the descriptor its pointer refers to.
\<close>

lemma Slot_ctor_transparent:
  assumes "transparent gc"
  shows "\<exists>w1 w2. Slot_ctor gc heap sd t off w =
     (let p = (if sd \<noteq> NULL then sd else AddrBoxed);
          s = \<lparr>storageDescriptor = \<lparr>handleType = REFERENCE, data = p\<rparr>, type = t, offset = off\<rparr>
      in if p = AddrBoxed \<and> t = VALUE then Inl (Fatal, w1)
         else if t \<noteq> VALUE then Inr (s, w1)
         else (case deref heap p of
                 None \<Rightarrow> Inl (Undefined, w2)
               | Some target \<Rightarrow> if hasArray target then Inl (Fatal, w2) else Inr (s, w2)))"
proof -
  define p where "p = (if sd \<noteq> NULL then sd else AddrBoxed)"
  from assms obtain w1 where r1: "gc_read gc p w = (p, p, w1)"
    unfolding transparent_def by blast
  from assms obtain w2 where r2: "gc_read gc p w1 = (p, p, w2)"
    unfolding transparent_def by blast
  have "Slot_ctor gc heap sd t off w =
     (let s = \<lparr>storageDescriptor = \<lparr>handleType = REFERENCE, data = p\<rparr>, type = t, offset = off\<rparr>
      in if p = AddrBoxed \<and> t = VALUE then Inl (Fatal, w1)
         else if t \<noteq> VALUE then Inr (s, w1)
         else (case deref heap p of
                 None \<Rightarrow> Inl (Undefined, w2)
               | Some target \<Rightarrow> if hasArray target then Inl (Fatal, w2) else Inr (s, w2)))"
    using r1 r2
    by (auto simp: Slot_ctor_def Let_def Handle_value_def wasCreated_def MemberHandleHooks_def
          get_def operator_arrow_def ARW_CHECK_def Check_def p_def [symmetric]
          split: option.splits)
  then show ?thesis unfolding p_def by (auto simp: Let_def)
qed

text \<open>
  Claim C7, as stated, fails for a collector whose read barrier returns another pointer
  than the field holds, which the documentation of \<open>Handle\<close> allows. Both checks of the
  constructor test what the barrier returns: with a barrier that forwards every read to
  a descriptor without array, constructing a slot from a null pointer and \<open>VALUE\<close> passes
  both checks, and the slot constructed is boxed and by value.
\<close>

theorem boxed_value_Slot_behind_forwarding_barrier:
  "Slot_ctor (ForwardingGCHooks (Heap 0)) [Object (boxed\<lparr>sd_sizeWithEmptyArray := 8\<rparr>)] NULL VALUE 0 ()
     = Inr (\<lparr>storageDescriptor = \<lparr>handleType = REFERENCE, data = AddrBoxed\<rparr>,
              type = VALUE, offset = 0\<rparr>, ())"
  by (simp add: Slot_ctor_def ForwardingGCHooks_def MemberHandleHooks_def Handle_value_def
        wasCreated_def get_def operator_arrow_def ARW_CHECK_def Let_def deref_def hasArray_def
        boxed_def)

text \<open>
  Claim C7, amended: for a collector whose read barrier is transparent (it returns the
  pointer that the field holds and leaves the field as it is, as the collector of the
  tests does), every slot that is constructed holds the pointer given, or the address
  of \<open>boxed\<close> for a null pointer, and satisfies both invariants: if its descriptor is
  \<open>boxed\<close> its discipline is not \<open>VALUE\<close>, and if its discipline is \<open>VALUE\<close> its descriptor
  has no array. Constructing a by-value boxed slot, or a by-value slot whose descriptor
  has an array, halts with the fatal assertion.
\<close>

theorem Slot_invariants:
  assumes "transparent gc"
  shows "(\<forall>s w'. Slot_ctor gc heap sd t off w = Inr (s, w') \<longrightarrow>
            data (storageDescriptor s) = (if sd \<noteq> NULL then sd else AddrBoxed)
          \<and> type s = t \<and> offset s = off
          \<and> (isBoxed (data (storageDescriptor s)) \<longrightarrow> type s \<noteq> VALUE)
          \<and> (type s = VALUE \<longrightarrow>
               (\<exists>target. deref heap (data (storageDescriptor s)) = Some target \<and> \<not> hasArray target)))
       \<and> (isBoxed (if sd \<noteq> NULL then sd else AddrBoxed) \<and> t = VALUE \<longrightarrow>
            (\<exists>w'. Slot_ctor gc heap sd t off w = Inl (Fatal, w')))
       \<and> (t = VALUE \<and> (\<exists>target. deref heap sd = Some target \<and> hasArray target) \<longrightarrow>
            (\<exists>w'. Slot_ctor gc heap sd t off w = Inl (Fatal, w')))"
proof -
  from Slot_ctor_transparent [OF assms, of heap sd t off w]
  obtain w1 w2 where eq: "Slot_ctor gc heap sd t off w =
     (let p = (if sd \<noteq> NULL then sd else AddrBoxed);
          s = \<lparr>storageDescriptor = \<lparr>handleType = REFERENCE, data = p\<rparr>, type = t, offset = off\<rparr>
      in if p = AddrBoxed \<and> t = VALUE then Inl (Fatal, w1)
         else if t \<noteq> VALUE then Inr (s, w1)
         else (case deref heap p of
                 None \<Rightarrow> Inl (Undefined, w2)
               | Some target \<Rightarrow> if hasArray target then Inl (Fatal, w2) else Inr (s, w2)))"
    by blast
  have nb: "deref heap NULL = None" by (simp add: deref_def)
  show ?thesis
    unfolding eq
    by (auto simp: Let_def isBoxed_def nb split: option.splits if_splits)
qed

theorem Slot_invariants_witness:
  "transparent (MockGCHooks :: (SDptr, unit) GCHooks)
   \<and> Slot_ctor MockGCHooks [Object (boxed\<lparr>sd_hasArray := True\<rparr>)] NULL VALUE 0 () = Inl (Fatal, ())
   \<and> Slot_ctor MockGCHooks [Object (boxed\<lparr>sd_hasArray := True\<rparr>)] (Heap 0) VALUE 0 () = Inl (Fatal, ())
   \<and> Slot_ctor MockGCHooks [Object (boxed\<lparr>sd_hasArray := True\<rparr>)] NULL REFERENCE 5 ()
       = Inr (\<lparr>storageDescriptor = \<lparr>handleType = REFERENCE, data = AddrBoxed\<rparr>,
                type = REFERENCE, offset = 5\<rparr>, ())"
proof -
  have ok: "Slot_ctor MockGCHooks [Object (boxed\<lparr>sd_hasArray := True\<rparr>)] NULL REFERENCE 5 ()
       = Inr (\<lparr>storageDescriptor = \<lparr>handleType = REFERENCE, data = AddrBoxed\<rparr>,
                type = REFERENCE, offset = 5\<rparr>, ())"
    by (simp add: Slot_ctor_def MockGCHooks_def MemberHandleHooks_def Handle_value_def
          wasCreated_def get_def ARW_CHECK_def Let_def)
  show ?thesis
    using Slot_invariants [OF transparent_MockGCHooks,
            of "[Object (boxed\<lparr>sd_hasArray := True\<rparr>)]" NULL VALUE 0 "()"]
          Slot_invariants [OF transparent_MockGCHooks,
            of "[Object (boxed\<lparr>sd_hasArray := True\<rparr>)]" "Heap 0" VALUE 0 "()"]
          ok
    by (simp add: transparent_MockGCHooks isBoxed_def deref_def hasArray_def)
qed

text \<open>
  Claim C8, as stated, fails when \<open>DEBUG\<close> is not defined: \<open>ARW_ASSERT\<close> is then empty,
  and \<open>init\<close> with no array, size zero and one slot returns a descriptor of size zero
  that has a fixed slot.
\<close>

theorem init_unchecked_without_DEBUG:
  "init False (Heap 0) 0 False Slot_empty [Slot_empty] [Uninitialized]
     = Inr (Heap 0, [Object \<lparr>sd_sizeWithEmptyArray = 0, sd_hasArray = False, sd_array = Slot_empty,
                             sd_numValues = 1, sd_values = [0 \<mapsto> Slot_empty]\<rparr>])"
  by (simp add: init_def StorageDescriptor_ctor_def ARW_ASSERT_def)

text \<open>
  Claim C8, amended: in a build with \<open>DEBUG\<close> defined, \<open>init\<close> with no array, size zero
  and a non-empty slot list halts with the fatal assertion, and every descriptor that
  \<open>init\<close> returns has the members given, counts the slots given (of which the memory
  at \<open>_values\<close> holds the last, each being constructed over the one before), and has a
  nonzero size unless it has neither an array nor any fixed slot.
\<close>

theorem init_asserts_in_DEBUG:
  "(a < length heap \<and> vals \<noteq> [] \<longrightarrow>
      init True (Heap a) 0 False array' vals heap
        = Inl (Fatal, heap[a := Object \<lparr>sd_sizeWithEmptyArray = 0, sd_hasArray = False,
                 sd_array = array', sd_numValues = length vals,
                 sd_values = (if vals = [] then Map.empty else [0 \<mapsto> last vals])\<rparr>]))
   \<and> (\<forall>obj' heap'. init True obj sizeWithEmptyArray hasArray' array' vals heap = Inr (obj', heap') \<longrightarrow>
         obj' = obj
       \<and> deref heap' obj = Some \<lparr>sd_sizeWithEmptyArray = sizeWithEmptyArray, sd_hasArray = hasArray',
                 sd_array = array', sd_numValues = length vals,
                 sd_values = (if vals = [] then Map.empty else [0 \<mapsto> last vals])\<rparr>
       \<and> (sizeWithEmptyArray \<noteq> 0 \<or> (\<not> hasArray' \<and> vals = [])))"
  by (cases obj)
     (auto simp: init_def StorageDescriptor_ctor_def ARW_ASSERT_def ARW_CHECK_def Check_def
        copy_values_eq deref_def Let_def split: if_splits)

theorem init_asserts_in_DEBUG_witness:
  "init True (Heap 0) 0 False Slot_empty [Slot_empty] [Uninitialized]
     = Inl (Fatal, [Object \<lparr>sd_sizeWithEmptyArray = 0, sd_hasArray = False, sd_array = Slot_empty,
                             sd_numValues = 1, sd_values = [0 \<mapsto> Slot_empty]\<rparr>])
   \<and> init True (Heap 0) 8 False Slot_empty [Slot_empty] [Uninitialized]
     = Inr (Heap 0, [Object \<lparr>sd_sizeWithEmptyArray = 8, sd_hasArray = False, sd_array = Slot_empty,
                             sd_numValues = 1, sd_values = [0 \<mapsto> Slot_empty]\<rparr>])"
proof -
  have ok: "init True (Heap 0) 8 False Slot_empty [Slot_empty] [Uninitialized]
     = Inr (Heap 0, [Object \<lparr>sd_sizeWithEmptyArray = 8, sd_hasArray = False, sd_array = Slot_empty,
                             sd_numValues = 1, sd_values = [0 \<mapsto> Slot_empty]\<rparr>])"
    by (simp add: init_def StorageDescriptor_ctor_def ARW_ASSERT_def ARW_CHECK_def)
  show ?thesis
    using init_asserts_in_DEBUG [of 0 "[Uninitialized]" "[Slot_empty]" Slot_empty "Heap 0" 8 False] ok
    by simp
qed

section \<open>Properties of the registry\<close>

lemma keeps_refl: "keeps reg reg"
  by (simp add: keeps_def)

lemma keeps_trans: "keeps a b \<Longrightarrow> keeps b c \<Longrightarrow> keeps a c"
  by (auto simp: keeps_def)

lemma and_then_Inr:
  "and_then r rest = Some (Inr x) \<Longrightarrow> \<exists>a s. r = Some (Inr (a, s)) \<and> rest a s = Some (Inr x)"
  by (auto simp: and_then_def split: option.splits sum.splits)

lemma slot_caching:
  assumes "caching lookup" and "slot lookup gc m reg = Some (Inr (s, reg'))"
  shows "keeps reg reg' \<and> (allocated_once reg \<longrightarrow> allocated_once reg')"
proof -
  from assms(2) obtain p r where l: "lookup (m_value_type m) reg = Some (Inr (p, r))"
    and c: "Some (case Slot_ctor gc (memory r) p (m_handleType m) (m_offset m) (collector r) of
                  Inl (e, w) \<Rightarrow> Inl (e, r\<lparr>collector := w\<rparr>)
                | Inr (s, w) \<Rightarrow> Inr (s, r\<lparr>collector := w\<rparr>)) = Some (Inr (s, reg'))"
    unfolding slot_def by (blast dest: and_then_Inr)
  from c obtain w where "reg' = r\<lparr>collector := w\<rparr>"
    by (auto split: sum.splits)
  with assms(1) l show ?thesis
    unfolding caching_def by (fastforce simp: keeps_def allocated_once_def)
qed

lemma arraySlot_caching:
  assumes "caching lookup" and "arraySlot lookup gc m reg = Some (Inr (s, reg'))"
  shows "keeps reg reg' \<and> (allocated_once reg \<longrightarrow> allocated_once reg')"
  using slot_caching [OF assms(1), of gc m reg s reg'] assms(2)
  by (simp add: slot_def arraySlot_def)

lemma slots_caching:
  assumes "caching lookup"
  shows "slots lookup gc ms reg = Some (Inr (ss, reg')) \<Longrightarrow>
         keeps reg reg' \<and> (allocated_once reg \<longrightarrow> allocated_once reg')"
proof (induction ms arbitrary: reg ss reg')
  case Nil
  then show ?case by (simp add: keeps_refl)
next
  case (Cons m ms)
  from Cons.prems obtain s r where s: "slot lookup gc m reg = Some (Inr (s, r))"
    and rest: "and_then (slots lookup gc ms r) (\<lambda>ss reg''. Some (Inr (s # ss, reg''))) = Some (Inr (ss, reg'))"
    by (auto dest: and_then_Inr)
  from rest obtain ss' where "slots lookup gc ms r = Some (Inr (ss', reg'))"
    by (auto dest!: and_then_Inr)
  with Cons.IH have "keeps r reg' \<and> (allocated_once r \<longrightarrow> allocated_once reg')" by blast
  with slot_caching [OF assms s] show ?case by (blast intro: keeps_trans)
qed

lemma get_descriptor_caching: "caching (get_descriptor depth gc DEBUG defs)"
proof (induction depth)
  case 0
  then show ?case by (simp add: caching_def)
next
  case (Suc depth)
  show ?case
    unfolding caching_def
  proof (intro allI impI)
    fix klass reg p reg'
    assume run: "get_descriptor (Suc depth) gc DEBUG defs klass reg = Some (Inr (p, reg'))"
    show "p \<noteq> NULL \<and> arw_macro_storage reg' klass = p \<and> keeps reg reg'
          \<and> (allocated_once reg \<longrightarrow> allocated_once reg')"
    proof (cases "arw_macro_storage reg klass \<noteq> NULL")
      case True
      with run show ?thesis by (auto simp: keeps_refl)
    next
      case False
      then have null: "arw_macro_storage reg klass = NULL" by simp
      from run null obtain d where d: "defs klass = Some d"
        by (auto split: option.splits)
      define reg1 where "reg1 = reg\<lparr>arw_macro_storage := (arw_macro_storage reg)(klass := Heap (length (memory reg))),
                          memory := memory reg @ [Uninitialized],
                          allocated := allocated reg @ [klass]\<rparr>"
      have k01: "keeps reg reg1" using null by (simp add: keeps_def reg1_def)
      have o01: "allocated_once reg \<longrightarrow> allocated_once reg1"
        using null by (auto simp: allocated_once_def reg1_def)
      have s1: "arw_macro_storage reg1 klass = Heap (length (memory reg))"
        by (simp add: reg1_def)
      from run null d obtain array' reg2 vals reg3 where
        a: "(case def_array d of
               None \<Rightarrow> Some (Inr (Slot_empty, reg1))
             | Some m \<Rightarrow> arraySlot (get_descriptor depth gc DEBUG defs) gc m reg1) = Some (Inr (array', reg2))"
        and v: "slots (get_descriptor depth gc DEBUG defs) gc (def_values d) reg2 = Some (Inr (vals, reg3))"
        and i: "Some (case init DEBUG (arw_macro_storage reg3 klass) (def_sizeof d)
                                     (def_hasArray d) array' vals (memory reg3) of
                                Inl (e, heap') \<Rightarrow> Inl (e, reg3\<lparr>memory := heap'\<rparr>)
                              | Inr (obj, heap') \<Rightarrow>
                                  Inr (arw_macro_storage reg3 klass, reg3\<lparr>memory := heap'\<rparr>)) = Some (Inr (p, reg'))"
        by (auto simp: Let_def reg1_def [symmetric] dest!: and_then_Inr)
      have k12: "keeps reg1 reg2 \<and> (allocated_once reg1 \<longrightarrow> allocated_once reg2)"
        using a arraySlot_caching [OF Suc] by (auto simp: keeps_refl split: option.splits)
      have k23: "keeps reg2 reg3 \<and> (allocated_once reg2 \<longrightarrow> allocated_once reg3)"
        using v slots_caching [OF Suc] by blast
      from i obtain heap' where p: "p = arw_macro_storage reg3 klass" and r: "reg' = reg3\<lparr>memory := heap'\<rparr>"
        by (auto split: sum.splits)
      have k3: "keeps reg3 reg' \<and> (allocated_once reg3 \<longrightarrow> allocated_once reg')"
        using r by (simp add: keeps_def allocated_once_def)
      have k13: "keeps reg1 reg3" using k12 k23 by (blast intro: keeps_trans)
      then have "arw_macro_storage reg3 klass = Heap (length (memory reg))"
        using s1 by (simp add: keeps_def)
      with p r have "p \<noteq> NULL" "arw_macro_storage reg' klass = p" by simp_all
      moreover have "keeps reg reg'" using k01 k13 k3 by (blast intro: keeps_trans)
      moreover have "allocated_once reg \<longrightarrow> allocated_once reg'" using o01 k12 k23 k3 by blast
      ultimately show ?thesis by blast
    qed
  qed
qed

lemma get_descriptor_cached:
  "arw_macro_storage reg klass \<noteq> NULL \<Longrightarrow>
   get_descriptor (Suc depth) gc DEBUG defs klass reg = Some (Inr (arw_macro_storage reg klass, reg))"
  by simp

lemma lookups_caching:
  "lookups depth gc DEBUG defs Ts reg = Some (Inr (ps, reg')) \<Longrightarrow>
   length ps = length Ts \<and> keeps reg reg' \<and> (allocated_once reg \<longrightarrow> allocated_once reg')
   \<and> (\<forall>i<length Ts. arw_macro_storage reg' (Ts ! i) = ps ! i \<and> ps ! i \<noteq> NULL)"
proof (induction Ts arbitrary: reg ps reg')
  case Nil
  then show ?case by (auto simp: keeps_refl)
next
  case (Cons T Ts)
  from Cons.prems obtain p r ps' where
    first: "get_descriptor depth gc DEBUG defs T reg = Some (Inr (p, r))"
    and rest: "lookups depth gc DEBUG defs Ts r = Some (Inr (ps', reg'))"
    and ps: "ps = p # ps'"
    by (auto simp: storageDescriptor_of_def dest!: and_then_Inr)
  from get_descriptor_caching [of depth gc DEBUG defs] first
  have f: "p \<noteq> NULL" "arw_macro_storage r T = p" "keeps reg r" "allocated_once reg \<longrightarrow> allocated_once r"
    unfolding caching_def by blast+
  from Cons.IH [OF rest]
  have r: "length ps' = length Ts" "keeps r reg'" "allocated_once r \<longrightarrow> allocated_once reg'"
    "\<forall>i<length Ts. arw_macro_storage reg' (Ts ! i) = ps' ! i \<and> ps' ! i \<noteq> NULL"
    by blast+
  have here: "arw_macro_storage reg' T = p"
    using f(1,2) r(2) by (simp add: keeps_def)
  have "\<forall>i<length (T # Ts). arw_macro_storage reg' ((T # Ts) ! i) = ps ! i \<and> ps ! i \<noteq> NULL"
  proof (intro allI impI)
    fix i assume "i < length (T # Ts)"
    then show "arw_macro_storage reg' ((T # Ts) ! i) = ps ! i \<and> ps ! i \<noteq> NULL"
      using here f(1) r(4) ps by (cases i) auto
  qed
  moreover have "keeps reg reg'" using f(3) r(2) by (rule keeps_trans)
  ultimately show ?case using ps r(1,3) f(4) by simp
qed

lemma allocated_once_Registry: "allocated_once (Registry w)"
  by (simp add: allocated_once_def Registry_def)

lemma Slot_ctor_reference:
  assumes "leaves_field gc" and "t \<noteq> VALUE" and "sd \<noteq> NULL"
  shows "\<exists>w'. Slot_ctor gc heap sd t off w =
           Inr (\<lparr>storageDescriptor = \<lparr>handleType = REFERENCE, data = sd\<rparr>, type = t, offset = off\<rparr>, w')"
proof -
  from assms(1) obtain r w' where "gc_read gc sd w = (r, sd, w')"
    unfolding leaves_field_def by blast
  with assms(2,3) show ?thesis
    by (simp add: Slot_ctor_def Let_def Handle_value_def wasCreated_def MemberHandleHooks_def
          get_def ARW_CHECK_def)
qed

lemma take_grows_trans:
  assumes "take (length a) b = a" and "take (length b) c = b"
  shows "take (length a) c = a"
proof -
  have "length (take (length a) b) = length a" using assms(1) by simp
  then have "length a \<le> length b" by simp
  then have "take (length a) c = take (length a) (take (length b) c)" by (simp add: min_def)
  with assms show ?thesis by simp
qed

lemma slot_grows:
  assumes "grows lookup" and "slot lookup gc m reg = Some (Inr (s, reg'))"
  shows "take (length (memory reg)) (memory reg') = memory reg"
proof -
  from assms(2) obtain p r where l: "lookup (m_value_type m) reg = Some (Inr (p, r))"
    and c: "Some (case Slot_ctor gc (memory r) p (m_handleType m) (m_offset m) (collector r) of
                  Inl (e, w) \<Rightarrow> Inl (e, r\<lparr>collector := w\<rparr>)
                | Inr (s, w) \<Rightarrow> Inr (s, r\<lparr>collector := w\<rparr>)) = Some (Inr (s, reg'))"
    unfolding slot_def by (blast dest: and_then_Inr)
  from c obtain w where "reg' = r\<lparr>collector := w\<rparr>"
    by (auto split: sum.splits)
  with assms(1) l show ?thesis
    unfolding grows_def by fastforce
qed

lemma arraySlot_grows:
  assumes "grows lookup" and "arraySlot lookup gc m reg = Some (Inr (s, reg'))"
  shows "take (length (memory reg)) (memory reg') = memory reg"
  using slot_grows [OF assms(1), of gc m reg s reg'] assms(2)
  by (simp add: slot_def arraySlot_def)

lemma slots_grows:
  assumes "grows lookup"
  shows "slots lookup gc ms reg = Some (Inr (ss, reg')) \<Longrightarrow>
         take (length (memory reg)) (memory reg') = memory reg"
proof (induction ms arbitrary: reg ss reg')
  case Nil
  then show ?case by simp
next
  case (Cons m ms)
  from Cons.prems obtain s r where s: "slot lookup gc m reg = Some (Inr (s, r))"
    and rest: "and_then (slots lookup gc ms r) (\<lambda>ss reg''. Some (Inr (s # ss, reg''))) = Some (Inr (ss, reg'))"
    by (auto dest: and_then_Inr)
  from rest obtain ss' where "slots lookup gc ms r = Some (Inr (ss', reg'))"
    by (auto dest!: and_then_Inr)
  with Cons.IH have "take (length (memory r)) (memory reg') = memory r" by blast
  with slot_grows [OF assms s] show ?case by (rule take_grows_trans)
qed

lemma init_Inr:
  "init DEBUG obj sz ha arr vals heap = Inr (obj', heap') \<Longrightarrow>
   \<exists>a. obj = Heap a \<and> a < length heap \<and> obj' = obj
     \<and> heap' = heap[a := Object \<lparr>sd_sizeWithEmptyArray = sz, sd_hasArray = ha, sd_array = arr,
                                   sd_numValues = length vals, sd_values = (if vals = [] then Map.empty else [0 \<mapsto> last vals])\<rparr>]"
  by (cases obj)
     (auto simp: init_def StorageDescriptor_ctor_def ARW_ASSERT_def ARW_CHECK_def copy_values_eq
        Let_def split: if_splits)

text \<open>What one call of \<open>get\<close> for a type whose static is null does, step by step.\<close>

lemma get_descriptor_uncached:
  assumes run: "get_descriptor (Suc depth) gc DEBUG defs klass reg = Some (Inr (p, reg'))"
    and null: "arw_macro_storage reg klass = NULL"
    and grows: "grows (get_descriptor depth gc DEBUG defs)"
  shows "\<exists>d reg1 array' reg2 vals reg3.
           defs klass = Some d
         \<and> reg1 = reg\<lparr>arw_macro_storage := (arw_macro_storage reg)(klass := Heap (length (memory reg))),
                       memory := memory reg @ [Uninitialized],
                       allocated := allocated reg @ [klass]\<rparr>
         \<and> (case def_array d of
               None \<Rightarrow> Some (Inr (Slot_empty, reg1))
             | Some m \<Rightarrow> arraySlot (get_descriptor depth gc DEBUG defs) gc m reg1) = Some (Inr (array', reg2))
         \<and> slots (get_descriptor depth gc DEBUG defs) gc (def_values d) reg2 = Some (Inr (vals, reg3))
         \<and> arw_macro_storage reg3 klass = Heap (length (memory reg))
         \<and> take (Suc (length (memory reg))) (memory reg3) = memory reg @ [Uninitialized]
         \<and> p = Heap (length (memory reg))
         \<and> reg' = reg3\<lparr>memory := (memory reg3)[length (memory reg) :=
                      Object \<lparr>sd_sizeWithEmptyArray = def_sizeof d, sd_hasArray = def_hasArray d,
                              sd_array = array', sd_numValues = length vals,
                 sd_values = (if vals = [] then Map.empty else [0 \<mapsto> last vals])\<rparr>]\<rparr>"
proof -
  from run null obtain d where d: "defs klass = Some d"
    by (auto split: option.splits)
  define reg1 where "reg1 = reg\<lparr>arw_macro_storage := (arw_macro_storage reg)(klass := Heap (length (memory reg))),
                          memory := memory reg @ [Uninitialized],
                          allocated := allocated reg @ [klass]\<rparr>"
  have s1: "arw_macro_storage reg1 klass = Heap (length (memory reg))"
    and m1: "memory reg1 = memory reg @ [Uninitialized]"
    by (simp_all add: reg1_def)
  from run null d obtain array' reg2 vals reg3 where
    a: "(case def_array d of
           None \<Rightarrow> Some (Inr (Slot_empty, reg1))
         | Some m \<Rightarrow> arraySlot (get_descriptor depth gc DEBUG defs) gc m reg1) = Some (Inr (array', reg2))"
    and v: "slots (get_descriptor depth gc DEBUG defs) gc (def_values d) reg2 = Some (Inr (vals, reg3))"
    and i: "Some (case init DEBUG (arw_macro_storage reg3 klass) (def_sizeof d)
                                 (def_hasArray d) array' vals (memory reg3) of
                            Inl (e, heap') \<Rightarrow> Inl (e, reg3\<lparr>memory := heap'\<rparr>)
                          | Inr (obj, heap') \<Rightarrow>
                              Inr (arw_macro_storage reg3 klass, reg3\<lparr>memory := heap'\<rparr>)) = Some (Inr (p, reg'))"
    by (auto simp: Let_def reg1_def [symmetric] dest!: and_then_Inr)
  have k12: "keeps reg1 reg2"
  proof (cases "def_array d")
    case None
    with a show ?thesis by (simp add: keeps_refl)
  next
    case (Some m)
    with a have "arraySlot (get_descriptor depth gc DEBUG defs) gc m reg1 = Some (Inr (array', reg2))"
      by simp
    from arraySlot_caching [OF get_descriptor_caching this] show ?thesis by blast
  qed
  have k23: "keeps reg2 reg3"
    using v slots_caching [OF get_descriptor_caching] by blast
  have s3: "arw_macro_storage reg3 klass = Heap (length (memory reg))"
    using keeps_trans [OF k12 k23] s1 by (simp add: keeps_def)
  have g12: "take (length (memory reg1)) (memory reg2) = memory reg1"
  proof (cases "def_array d")
    case None
    with a show ?thesis by simp
  next
    case (Some m)
    with a have "arraySlot (get_descriptor depth gc DEBUG defs) gc m reg1 = Some (Inr (array', reg2))"
      by simp
    from arraySlot_grows [OF grows this] show ?thesis .
  qed
  have g23: "take (length (memory reg2)) (memory reg3) = memory reg2"
    using v slots_grows [OF grows] by blast
  have g13: "take (Suc (length (memory reg))) (memory reg3) = memory reg @ [Uninitialized]"
    using take_grows_trans [OF g12 g23] m1 by simp
  from i obtain obj heap' where ini: "init DEBUG (arw_macro_storage reg3 klass) (def_sizeof d)
        (def_hasArray d) array' vals (memory reg3) = Inr (obj, heap')"
    and p: "p = arw_macro_storage reg3 klass" and r: "reg' = reg3\<lparr>memory := heap'\<rparr>"
    by (auto split: sum.splits)
  from init_Inr [OF ini] s3
  have "heap' = (memory reg3)[length (memory reg) :=
                      Object \<lparr>sd_sizeWithEmptyArray = def_sizeof d, sd_hasArray = def_hasArray d,
                              sd_array = array', sd_numValues = length vals,
                 sd_values = (if vals = [] then Map.empty else [0 \<mapsto> last vals])\<rparr>]"
    by auto
  with d a v s3 g13 p r show ?thesis
    unfolding reg1_def by blast
qed

lemma get_descriptor_grows: "grows (get_descriptor depth gc DEBUG defs)"
proof (induction depth)
  case 0
  then show ?case by (simp add: grows_def)
next
  case (Suc depth)
  show ?case
    unfolding grows_def
  proof (intro allI impI)
    fix klass reg p reg'
    assume run: "get_descriptor (Suc depth) gc DEBUG defs klass reg = Some (Inr (p, reg'))"
    show "take (length (memory reg)) (memory reg') = memory reg"
    proof (cases "arw_macro_storage reg klass \<noteq> NULL")
      case True
      with run show ?thesis by auto
    next
      case False
      then have null: "arw_macro_storage reg klass = NULL" by simp
      from get_descriptor_uncached [OF run null Suc]
      obtain reg3 sd where g: "take (Suc (length (memory reg))) (memory reg3) = memory reg @ [Uninitialized]"
        and r: "reg' = reg3\<lparr>memory := (memory reg3)[length (memory reg) := Object sd]\<rparr>"
        by blast
      from g have "take (length (memory reg)) (take (Suc (length (memory reg))) (memory reg3)) = memory reg"
        by simp
      then have "take (length (memory reg)) (memory reg3) = memory reg"
        by (simp add: min_def)
      with r show ?thesis by simp
    qed
  qed
qed

lemma deref_append: "deref heap p = Some sd \<Longrightarrow> deref (heap @ xs) p = Some sd"
  by (auto simp: deref_def nth_append split: SDptr.splits if_splits)

lemma deref_update_other:
  "deref heap p = Some sd \<Longrightarrow> heap ! n = Uninitialized \<Longrightarrow> deref (heap[n := x]) p = Some sd"
proof (cases p)
  case (Heap a)
  assume d: "deref heap p = Some sd" and u: "heap ! n = Uninitialized"
  from d Heap have a: "a < length heap" "heap ! a = Object sd"
    by (auto simp: deref_def split: if_splits cell.splits)
  with u have "a \<noteq> n" by auto
  with a Heap show ?thesis by (simp add: deref_def)
qed (simp_all add: deref_def)

lemma slot_preserves:
  assumes "\<And>k r p r'. lookup k r = Some (Inr (p, r')) \<Longrightarrow> P r \<Longrightarrow> P r'"
    and "\<And>r w. P r \<Longrightarrow> P (r\<lparr>collector := w\<rparr>)"
    and "slot lookup gc m reg = Some (Inr (s, reg'))" and "P reg"
  shows "P reg'"
proof -
  from assms(3) obtain p r where l: "lookup (m_value_type m) reg = Some (Inr (p, r))"
    and c: "Some (case Slot_ctor gc (memory r) p (m_handleType m) (m_offset m) (collector r) of
                  Inl (e, w) \<Rightarrow> Inl (e, r\<lparr>collector := w\<rparr>)
                | Inr (s, w) \<Rightarrow> Inr (s, r\<lparr>collector := w\<rparr>)) = Some (Inr (s, reg'))"
    unfolding slot_def by (blast dest: and_then_Inr)
  from c obtain w where "reg' = r\<lparr>collector := w\<rparr>"
    by (auto split: sum.splits)
  moreover from assms(1) [OF l assms(4)] have "P r" .
  ultimately show ?thesis using assms(2) by simp
qed

lemma slots_preserves:
  assumes "\<And>k r p r'. lookup k r = Some (Inr (p, r')) \<Longrightarrow> P r \<Longrightarrow> P r'"
    and "\<And>r w. P r \<Longrightarrow> P (r\<lparr>collector := w\<rparr>)"
  shows "slots lookup gc ms reg = Some (Inr (ss, reg')) \<Longrightarrow> P reg \<Longrightarrow> P reg'"
proof (induction ms arbitrary: reg ss reg')
  case Nil
  then show ?case by simp
next
  case (Cons m ms)
  from Cons.prems(1) obtain s r where s: "slot lookup gc m reg = Some (Inr (s, r))"
    and rest: "and_then (slots lookup gc ms r) (\<lambda>ss reg''. Some (Inr (s # ss, reg''))) = Some (Inr (ss, reg'))"
    by (auto dest: and_then_Inr)
  from rest obtain ss' where r: "slots lookup gc ms r = Some (Inr (ss', reg'))"
    by (auto dest!: and_then_Inr)
  have "P r" by (rule slot_preserves [where P = P, OF assms s Cons.prems(2)])
  with Cons.IH [OF r] show ?case .
qed

lemma self_described_collector:
  "self_described T off r \<Longrightarrow> self_described T off (r\<lparr>collector := w\<rparr>)"
  by (simp add: self_described_def)

lemma circular_shallow:
  assumes "defs T = Some (ARW_DEFINE_STORAGE_1 sizeof_T
                            \<lparr>m_value_type = T, m_handleType = REFERENCE, m_offset = off\<rparr>)"
    and "arw_macro_storage reg T = NULL"
  shows "get_descriptor (Suc 0) gc DEBUG defs T reg = None"
  using assms by (simp add: ARW_DEFINE_STORAGE_1_def slot_def and_then_def)

lemma circular_first:
  assumes "defs T = Some (ARW_DEFINE_STORAGE_1 sizeof_T
                            \<lparr>m_value_type = T, m_handleType = REFERENCE, m_offset = off\<rparr>)"
    and "arw_macro_storage reg T = NULL"
    and "leaves_field gc"
    and "0 < sizeof_T"
  shows "\<exists>w'. get_descriptor (Suc (Suc depth)) gc DEBUG defs T reg =
           Some (Inr (Heap (length (memory reg)),
             reg\<lparr>arw_macro_storage := (arw_macro_storage reg)(T := Heap (length (memory reg))),
                 memory := memory reg @
                   [Object \<lparr>sd_sizeWithEmptyArray = sizeof_T, sd_hasArray = False, sd_array = Slot_empty,
                            sd_numValues = 1,
                            sd_values = [0 \<mapsto> \<lparr>storageDescriptor = \<lparr>handleType = REFERENCE,
                                                                  data = Heap (length (memory reg))\<rparr>,
                                          type = REFERENCE, offset = off\<rparr>]\<rparr>],
                 allocated := allocated reg @ [T],
                 collector := w'\<rparr>))"
proof -
  define a where "a = length (memory reg)"
  define reg1 where "reg1 = reg\<lparr>arw_macro_storage := (arw_macro_storage reg)(T := Heap a),
                          memory := memory reg @ [Uninitialized],
                          allocated := allocated reg @ [T]\<rparr>"
  define s where "s = \<lparr>storageDescriptor = \<lparr>handleType = REFERENCE, data = Heap a\<rparr>,
                       type = REFERENCE, offset = off\<rparr>"
  define sd where "sd = \<lparr>sd_sizeWithEmptyArray = sizeof_T, sd_hasArray = False, sd_array = Slot_empty,
                         sd_numValues = 1, sd_values = [0 \<mapsto> s]\<rparr>"
  from Slot_ctor_reference [OF assms(3), of REFERENCE "Heap a" "memory reg1" off "collector reg1"]
  obtain w' where ctor: "Slot_ctor gc (memory reg1) (Heap a) REFERENCE off (collector reg1) = Inr (s, w')"
    by (auto simp: s_def)
  have inner: "get_descriptor (Suc depth) gc DEBUG defs T reg1 = Some (Inr (Heap a, reg1))"
    by (simp add: reg1_def)
  have sl: "slots (get_descriptor (Suc depth) gc DEBUG defs) gc
              [\<lparr>m_value_type = T, m_handleType = REFERENCE, m_offset = off\<rparr>] reg1
            = Some (Inr ([s], reg1\<lparr>collector := w'\<rparr>))"
    using inner ctor by (simp add: slot_def and_then_def)
  have ini: "init DEBUG (Heap a) sizeof_T False Slot_empty [s] (memory reg1)
             = Inr (Heap a, memory reg @ [Object sd])"
    using assms(4)
    by (simp add: init_def StorageDescriptor_ctor_def ARW_ASSERT_def ARW_CHECK_def Let_def sd_def reg1_def a_def)
  have s1: "arw_macro_storage reg1 T = Heap a"
    by (simp add: reg1_def)
  have "get_descriptor (Suc (Suc depth)) gc DEBUG defs T reg
          = Some (Inr (Heap a, reg1\<lparr>collector := w', memory := memory reg @ [Object sd]\<rparr>))"
    using assms(1,2) sl ini
    by (simp add: ARW_DEFINE_STORAGE_1_def Let_def a_def [symmetric] reg1_def [symmetric]
          and_then_def s1)
  then show ?thesis
    by (intro exI [of _ w']) (simp add: reg1_def sd_def s_def a_def)
qed

lemma self_described_transfer:
  assumes "self_described T off r"
    and "arw_macro_storage r' T = arw_macro_storage r T"
    and "\<And>sd. deref (memory r) (arw_macro_storage r T) = Some sd \<Longrightarrow>
              deref (memory r') (arw_macro_storage r T) = Some sd"
  shows "self_described T off r'"
proof (cases "arw_macro_storage r T = NULL")
  case True
  with assms(2) show ?thesis by (simp add: self_described_def)
next
  case False
  with assms(1) obtain sd s where sd: "deref (memory r) (arw_macro_storage r T) = Some sd"
    and rest: "\<not> hasArray sd" "sd_numValues sd = 1" "sd_values sd = [0 \<mapsto> s]"
      "data (storageDescriptor s) = arw_macro_storage r T" "type s = REFERENCE" "offset s = off"
    unfolding self_described_def by blast
  from assms(3) [OF sd] have "deref (memory r') (arw_macro_storage r' T) = Some sd"
    using assms(2) by simp
  with rest assms(2) show ?thesis
    unfolding self_described_def by auto
qed

lemma get_descriptor_self_described:
  assumes def: "defs T = Some (ARW_DEFINE_STORAGE_1 sizeof_T
                            \<lparr>m_value_type = T, m_handleType = REFERENCE, m_offset = off\<rparr>)"
    and tr: "leaves_field gc"
    and sz: "0 < sizeof_T"
  shows "get_descriptor depth gc DEBUG defs klass reg = Some (Inr (p, reg')) \<Longrightarrow>
         self_described T off reg \<Longrightarrow> self_described T off reg'"
proof (induction depth arbitrary: klass reg p reg')
  case 0
  then show ?case by simp
next
  case (Suc depth)
  note run = Suc.prems(1) and before = Suc.prems(2)
  show ?case
  proof (cases "arw_macro_storage reg klass \<noteq> NULL")
    case True
    with run before show ?thesis by auto
  next
    case False
    then have null: "arw_macro_storage reg klass = NULL" by simp
    show ?thesis
    proof (cases "klass = T")
      case True
      show ?thesis
      proof (cases depth)
        case 0
        with circular_shallow [where defs = defs and T = T and reg = reg and gc = gc and DEBUG = DEBUG, OF def]
          null True run show ?thesis by simp
      next
        case (Suc depth')
        from circular_first [where defs = defs and T = T and reg = reg and gc = gc and DEBUG = DEBUG
            and depth = depth', OF def _ tr sz] null True
        obtain w' where "get_descriptor (Suc (Suc depth')) gc DEBUG defs T reg =
           Some (Inr (Heap (length (memory reg)),
             reg\<lparr>arw_macro_storage := (arw_macro_storage reg)(T := Heap (length (memory reg))),
                 memory := memory reg @
                   [Object \<lparr>sd_sizeWithEmptyArray = sizeof_T, sd_hasArray = False, sd_array = Slot_empty,
                            sd_numValues = 1,
                            sd_values = [0 \<mapsto> \<lparr>storageDescriptor = \<lparr>handleType = REFERENCE,
                                                                  data = Heap (length (memory reg))\<rparr>,
                                          type = REFERENCE, offset = off\<rparr>]\<rparr>],
                 allocated := allocated reg @ [T],
                 collector := w'\<rparr>))"
          by blast
        with run True Suc have "reg' =
             reg\<lparr>arw_macro_storage := (arw_macro_storage reg)(T := Heap (length (memory reg))),
                 memory := memory reg @
                   [Object \<lparr>sd_sizeWithEmptyArray = sizeof_T, sd_hasArray = False, sd_array = Slot_empty,
                            sd_numValues = 1,
                            sd_values = [0 \<mapsto> \<lparr>storageDescriptor = \<lparr>handleType = REFERENCE,
                                                                  data = Heap (length (memory reg))\<rparr>,
                                          type = REFERENCE, offset = off\<rparr>]\<rparr>],
                 allocated := allocated reg @ [T],
                 collector := w'\<rparr>"
          by simp
        then show ?thesis
          by (auto simp: self_described_def deref_def hasArray_def)
      qed
    next
      case False
      from get_descriptor_uncached [OF run null get_descriptor_grows]
      obtain d :: storage_definition and reg1 array' reg2 vals reg3 sdk where
        r1: "reg1 = reg\<lparr>arw_macro_storage := (arw_macro_storage reg)(klass := Heap (length (memory reg))),
                       memory := memory reg @ [Uninitialized],
                       allocated := allocated reg @ [klass]\<rparr>"
        and a: "(case def_array d of
               None \<Rightarrow> Some (Inr (Slot_empty, reg1))
             | Some m \<Rightarrow> arraySlot (get_descriptor depth gc DEBUG defs) gc m reg1) = Some (Inr (array', reg2))"
        and v: "slots (get_descriptor depth gc DEBUG defs) gc (def_values d) reg2 = Some (Inr (vals, reg3))"
        and g: "take (Suc (length (memory reg))) (memory reg3) = memory reg @ [Uninitialized]"
        and r: "reg' = reg3\<lparr>memory := (memory reg3)[length (memory reg) := Object sdk]\<rparr>"
        by blast
      have lookup: "\<And>k r p r'. get_descriptor depth gc DEBUG defs k r = Some (Inr (p, r')) \<Longrightarrow>
          self_described T off r \<Longrightarrow> self_described T off r'"
        by (rule Suc.IH)
      have d1: "self_described T off reg1"
      proof (rule self_described_transfer [OF before])
        show "arw_macro_storage reg1 T = arw_macro_storage reg T"
          using False by (simp add: r1)
        show "deref (memory reg1) (arw_macro_storage reg T) = Some sd"
          if "deref (memory reg) (arw_macro_storage reg T) = Some sd" for sd
          using that by (simp add: r1 deref_append)
      qed
      have d2: "self_described T off reg2"
      proof (cases "def_array d")
        case None
        with a d1 show ?thesis by simp
      next
        case (Some m)
        with a have "slot (get_descriptor depth gc DEBUG defs) gc m reg1 = Some (Inr (array', reg2))"
          by (simp add: slot_def arraySlot_def)
        from slot_preserves [where P = "self_described T off", OF lookup self_described_collector this d1]
        show ?thesis .
      qed
      have d3: "self_described T off reg3"
        by (rule slots_preserves [where P = "self_described T off", OF lookup self_described_collector v d2])
      have "length (take (Suc (length (memory reg))) (memory reg3)) = Suc (length (memory reg))"
        using g by simp
      then have len: "length (memory reg) < length (memory reg3)" by simp
      have "take (Suc (length (memory reg))) (memory reg3) ! length (memory reg) = Uninitialized"
        using g by simp
      then have un: "memory reg3 ! length (memory reg) = Uninitialized" by simp
      show ?thesis
      proof (rule self_described_transfer [OF d3])
        show "arw_macro_storage reg' T = arw_macro_storage reg3 T"
          by (simp add: r)
        show "deref (memory reg') (arw_macro_storage reg3 T) = Some sd"
          if "deref (memory reg3) (arw_macro_storage reg3 T) = Some sd" for sd
          using deref_update_other [OF that un] by (simp add: r)
      qed
    qed
  qed
qed

lemma lookups_self_described:
  assumes def: "defs T = Some (ARW_DEFINE_STORAGE_1 sizeof_T
                            \<lparr>m_value_type = T, m_handleType = REFERENCE, m_offset = off\<rparr>)"
    and tr: "leaves_field gc"
    and sz: "0 < sizeof_T"
  shows "lookups depth gc DEBUG defs Ts reg = Some (Inr (ps, reg')) \<Longrightarrow>
         self_described T off reg \<Longrightarrow> self_described T off reg'"
proof (induction Ts arbitrary: reg ps reg')
  case Nil
  then show ?case by simp
next
  case (Cons U Ts)
  from Cons.prems(1) obtain p r ps' where
    first: "get_descriptor depth gc DEBUG defs U reg = Some (Inr (p, r))"
    and rest: "lookups depth gc DEBUG defs Ts r = Some (Inr (ps', reg'))"
    by (auto simp: storageDescriptor_of_def dest!: and_then_Inr)
  from get_descriptor_self_described [OF def tr sz first Cons.prems(2)]
  have "self_described T off r" .
  from Cons.IH [OF rest this] show ?case .
qed

lemma test_run:
  "(case lookups 2 (MockGCHooks :: (SDptr, unit) GCHooks) True test_definitions
               [''Circular'', ''Members1'', ''Circular''] (Registry ()) of Some (Inr (ps, reg)) \<Rightarrow> True | _ \<Rightarrow> False)"
  by code_simp

text \<open>
  Claim C2, as stated, fails for a collector whose read barrier updates the field it
  reads, which the documentation of \<open>Handle\<close> allows. The constructor of \<open>Slot\<close> reads
  its member through the barrier before the slot is copied into the descriptor: with a
  barrier that sets the field to the address of \<open>boxed\<close>, the lookup of \<open>Circular\<close>
  returns the pointer to a descriptor whose single slot holds the address of \<open>boxed\<close>,
  not that pointer.
\<close>

theorem circular_slot_behind_redirecting_barrier:
  "storageDescriptor_of 2 (RedirectingGCHooks AddrBoxed) True test_definitions ''Circular'' (Registry ())
     = Some (Inr (Heap 0,
         (Registry ())
           \<lparr>arw_macro_storage := (arw_macro_storage (Registry ()))(''Circular'' := Heap 0),
            memory := [Object \<lparr>sd_sizeWithEmptyArray = 8, sd_hasArray = False, sd_array = Slot_empty,
                               sd_numValues = 1,
                               sd_values = [0 \<mapsto> \<lparr>storageDescriptor =
                                                     \<lparr>handleType = REFERENCE, data = AddrBoxed\<rparr>,
                                                   type = REFERENCE, offset = 0\<rparr>]\<rparr>],
            allocated := [''Circular'']\<rparr>))"
  by (simp add: numeral_2_eq_2 storageDescriptor_of_def test_definitions_def Registry_def
        ARW_DEFINE_STORAGE_1_def and_then_def slot_def Slot_ctor_def RedirectingGCHooks_def
        MemberHandleHooks_def Handle_value_def wasCreated_def get_def ARW_CHECK_def ARW_ASSERT_def
        init_def StorageDescriptor_ctor_def sizeof_Slot_array_0_def Let_def)

text \<open>
  Claim C2, amended: let a type be registered with \<open>ARW_DEFINE_STORAGE_1\<close>, its one
  member a strong reference to the type itself, and let the collector's read barrier
  leave the field it reads as it is (what it returns does not matter). Start with every
  static null and make any sequence of lookups, all of which return. Then a lookup of
  the type from outside returns (two nested calls suffice, whatever the bound): the
  result is a non-null pointer, not the sentinel, to an initialised descriptor without
  array whose single slot holds that same pointer, and memory has been allocated for
  the type exactly once. \<open>sizeof\<close> of the type is positive, as it is for every C++ type.
\<close>

theorem circular_descriptor:
  assumes def: "defs T = Some (ARW_DEFINE_STORAGE_1 sizeof_T
                            \<lparr>m_value_type = T, m_handleType = REFERENCE, m_offset = off\<rparr>)"
    and tr: "leaves_field gc"
    and sz: "0 < sizeof_T"
    and earlier: "lookups depth gc DEBUG defs Ts (Registry w) = Some (Inr (ps, reg))"
  shows "\<exists>p reg' sd s.
           storageDescriptor_of (Suc (Suc depth')) gc DEBUG defs T reg = Some (Inr (p, reg'))
         \<and> p \<noteq> NULL \<and> \<not> isBoxed p
         \<and> deref (memory reg') p = Some sd
         \<and> hasArray sd = False
         \<and> sd_numValues sd = 1 \<and> sd_values sd = [0 \<mapsto> s]
         \<and> data (storageDescriptor s) = p \<and> type s = REFERENCE \<and> offset s = off
         \<and> count_list (allocated reg') T = 1"
proof -
  have "self_described T off (Registry w)"
    by (simp add: self_described_def Registry_def)
  from lookups_self_described [OF def tr sz earlier this]
  have inv: "self_described T off reg" .
  from lookups_caching [OF earlier] allocated_once_Registry [of w]
  have once: "allocated_once reg" by blast
  have "\<exists>p reg'. get_descriptor (Suc (Suc depth')) gc DEBUG defs T reg = Some (Inr (p, reg'))"
  proof (cases "arw_macro_storage reg T = NULL")
    case True
    from circular_first [where defs = defs and T = T and reg = reg and gc = gc and DEBUG = DEBUG
            and depth = depth', OF def True tr sz]
    show ?thesis by blast
  next
    case False
    then show ?thesis by simp
  qed
  then obtain p reg' where run: "get_descriptor (Suc (Suc depth')) gc DEBUG defs T reg = Some (Inr (p, reg'))"
    by blast
  from get_descriptor_caching [of "Suc (Suc depth')" gc DEBUG defs] run once
  have p: "p \<noteq> NULL" "arw_macro_storage reg' T = p" and once': "allocated_once reg'"
    unfolding caching_def by blast+
  from get_descriptor_self_described [OF def tr sz run inv]
  have "self_described T off reg'" .
  with p obtain sd s where sd: "deref (memory reg') p = Some sd"
    and rest: "\<not> hasArray sd" "sd_numValues sd = 1" "sd_values sd = [0 \<mapsto> s]"
      "data (storageDescriptor s) = p" "type s = REFERENCE" "offset s = off"
    unfolding self_described_def by auto
  have "\<not> isBoxed p"
  proof
    assume "isBoxed p"
    then have "deref (memory reg') p = Some boxed" by (simp add: isBoxed_def deref_def)
    with sd have "sd = boxed" by simp
    with rest(3) have "sd_values boxed 0 = Some s" by simp
    then show False by (simp add: boxed_def)
  qed
  moreover from once' p have "count_list (allocated reg') T = 1"
    by (simp add: allocated_once_def)
  ultimately show ?thesis
    using run p(1) sd rest unfolding storageDescriptor_of_def by blast
qed

theorem circular_descriptor_witness:
  "test_definitions ''Circular''
     = Some (ARW_DEFINE_STORAGE_1 8 \<lparr>m_value_type = ''Circular'', m_handleType = REFERENCE, m_offset = 0\<rparr>)
   \<and> leaves_field (MockGCHooks :: (SDptr, unit) GCHooks)
   \<and> lookups 2 (MockGCHooks :: (SDptr, unit) GCHooks) True test_definitions [] (Registry ())
       = Some (Inr ([], Registry ()))
   \<and> (\<exists>p reg' sd s.
           storageDescriptor_of 2 MockGCHooks True test_definitions ''Circular'' (Registry ())
             = Some (Inr (p, reg'))
         \<and> p \<noteq> NULL \<and> deref (memory reg') p = Some sd \<and> hasArray sd = False
         \<and> sd_values sd = [0 \<mapsto> s] \<and> data (storageDescriptor s) = p
         \<and> count_list (allocated reg') ''Circular'' = 1)"
proof -
  have d: "test_definitions ''Circular''
     = Some (ARW_DEFINE_STORAGE_1 8 \<lparr>m_value_type = ''Circular'', m_handleType = REFERENCE, m_offset = 0\<rparr>)"
    by (simp add: test_definitions_def)
  have e: "lookups 2 (MockGCHooks :: (SDptr, unit) GCHooks) True test_definitions [] (Registry ())
       = Some (Inr ([], Registry ()))"
    by simp
  have z: "0 < (8::nat)" by simp
  from circular_descriptor [where defs = test_definitions and T = "''Circular''" and sizeof_T = 8
         and off = 0 and gc = "MockGCHooks :: (SDptr, unit) GCHooks" and depth = 2 and DEBUG = True
         and Ts = "[]" and w = "()" and ps = "[]" and reg = "Registry ()" and depth' = 0,
         OF d leaves_field_MockGCHooks z e]
  have "\<exists>p reg' sd s.
           storageDescriptor_of 2 MockGCHooks True test_definitions ''Circular'' (Registry ())
             = Some (Inr (p, reg'))
         \<and> p \<noteq> NULL \<and> deref (memory reg') p = Some sd \<and> hasArray sd = False
         \<and> sd_values sd = [0 \<mapsto> s] \<and> data (storageDescriptor s) = p
         \<and> count_list (allocated reg') ''Circular'' = 1"
    by (simp add: numeral_2_eq_2) blast
  with d e leaves_field_MockGCHooks show ?thesis by blast
qed

text \<open>
  Claim C3. Start with every static null and make any sequence of lookups, all of which
  return. Then lookups of the same type have returned the same pointer, memory has been
  allocated at most once for each type, and every further lookup of one of these types
  returns its pointer again and leaves the state as it is, so allocates nothing.
\<close>

theorem registry_singleton:
  assumes "lookups depth gc DEBUG defs Ts (Registry w) = Some (Inr (ps, reg))"
  shows "length ps = length Ts
       \<and> (\<forall>i<length Ts. \<forall>j<length Ts. Ts ! i = Ts ! j \<longrightarrow> ps ! i = ps ! j)
       \<and> (\<forall>T. count_list (allocated reg) T \<le> 1)
       \<and> (\<forall>i<length Ts. \<forall>depth'.
            storageDescriptor_of (Suc depth') gc DEBUG defs (Ts ! i) reg = Some (Inr (ps ! i, reg)))"
proof -
  from lookups_caching [OF assms] allocated_once_Registry [of w]
  have l: "length ps = length Ts" and o: "allocated_once reg"
    and s: "\<forall>i<length Ts. arw_macro_storage reg (Ts ! i) = ps ! i \<and> ps ! i \<noteq> NULL"
    by blast+
  from s have "\<forall>i<length Ts. \<forall>j<length Ts. Ts ! i = Ts ! j \<longrightarrow> ps ! i = ps ! j"
    by metis
  moreover from o have "\<forall>T. count_list (allocated reg) T \<le> 1"
    by (simp add: allocated_once_def)
  moreover from s have "\<forall>i<length Ts. \<forall>depth'.
      storageDescriptor_of (Suc depth') gc DEBUG defs (Ts ! i) reg = Some (Inr (ps ! i, reg))"
    by (simp add: storageDescriptor_of_def)
  ultimately show ?thesis using l by blast
qed

theorem registry_singleton_witness:
  "\<exists>ps reg. lookups 2 (MockGCHooks :: (SDptr, unit) GCHooks) True test_definitions
               [''Circular'', ''Members1'', ''Circular''] (Registry ()) = Some (Inr (ps, reg))
     \<and> ps ! 0 = ps ! 2
     \<and> count_list (allocated reg) ''Circular'' \<le> 1
     \<and> storageDescriptor_of 1 MockGCHooks True test_definitions ''Circular'' reg = Some (Inr (ps ! 0, reg))"
proof -
  define Ts where "Ts = [''Circular'', ''Members1'', ''Circular'']"
  have Ts: "length Ts = 3" "Ts ! 0 = ''Circular''" "Ts ! 2 = ''Circular''"
    by (simp_all add: Ts_def)
  from test_run obtain ps reg where run: "lookups 2 (MockGCHooks :: (SDptr, unit) GCHooks) True
      test_definitions Ts (Registry ()) = Some (Inr (ps, reg))"
    unfolding Ts_def by (auto split: option.splits sum.splits)
  note rs = registry_singleton [OF run]
  from rs have "\<forall>i<length Ts. \<forall>j<length Ts. Ts ! i = Ts ! j \<longrightarrow> ps ! i = ps ! j"
    by (rule conjunct1 [OF conjunct2])
  then have same: "ps ! 0 = ps ! 2"
    using Ts by simp
  from rs have once: "count_list (allocated reg) ''Circular'' \<le> 1"
    by blast
  from rs have "\<forall>i<length Ts. \<forall>depth'.
      storageDescriptor_of (Suc depth') MockGCHooks True test_definitions (Ts ! i) reg = Some (Inr (ps ! i, reg))"
    by (rule conjunct2 [OF conjunct2 [OF conjunct2]])
  then have "\<forall>depth'. storageDescriptor_of (Suc depth') MockGCHooks True test_definitions (Ts ! 0) reg
      = Some (Inr (ps ! 0, reg))"
    using Ts(1) by simp
  then have again: "storageDescriptor_of 1 MockGCHooks True test_definitions ''Circular'' reg
      = Some (Inr (ps ! 0, reg))"
    using Ts(2) by simp
  from run same once again show ?thesis
    unfolding Ts_def by blast
qed

section \<open>Properties of the allocation mixin\<close>

text \<open>
  Claim C9 at a type of 8 bytes, with the allocation function of the tests, which
  returns the address \<open>0xdeadbeef\<close>: \<open>new T\<close> calls \<open>allocate\<close> once and has the value
  that it returned, but the size it asks for is 64, the square of the size of one
  object, not 8.
\<close>

theorem new_requests_square_of_size:
  "new_expression (recording (\<lambda>size' w. (0xdeadbeef :: nat, w))) (8 :: 64 word) ((), [])
     = (0xdeadbeef, ((), [64]))"
  by (simp add: new_expression_def operator_new_def recording_def)

end
